theory Spec2Isabelle
  imports Complex_Main
begin

section \<open>Bounty validation schemas (packages/react-app/src/models/Bounty.ts)\<close>

text \<open>
  The source file declares validation schemas with the yup schema builder and three
  predicates of its own (\<open>requiredForPost\<close>, \<open>bothRequiredIfOneRequired\<close> and the
  completeness test of \<open>Reward\<close>). The schemas and the predicates are transcribed from
  the source. The builder itself is a dependency of the repository: the fragment of it
  that the source uses (casting, type errors, \<open>oneOf\<close>, \<open>defined\<close>, \<open>required\<close>,
  \<open>optional\<close>, \<open>default\<close>, \<open>min\<close>, \<open>noUnknown\<close>, \<open>test\<close>, \<open>when\<close>) is modelled below
  after the behaviour of yup 0.32, the release line whose \<open>when\<close> callback has the
  signature \<open>(value, schema)\<close> that the source relies on.
\<close>

subsection \<open>JavaScript values\<close>

text \<open>
  A candidate is an arbitrary JSON-like value. Numbers are rationals: every finite
  JSON number is one, and the schemas only compare numbers with \<open>0\<close>.
  An object is an association list; a property read returns the first binding.
\<close>

datatype jv =
    JUndefined
  | JNull
  | JBool bool
  | JNum rat
  | JStr string
  | JArr "jv list"
  | JObj "(string \<times> jv) list"

text \<open>\<open>!!v\<close>: the values JavaScript treats as false are \<open>undefined\<close>, \<open>null\<close>,
  \<open>false\<close>, \<open>0\<close> and the empty string.\<close>

fun truthy :: "jv \<Rightarrow> bool" where
  "truthy JUndefined = False"
| "truthy JNull = False"
| "truthy (JBool b) = b"
| "truthy (JNum r) = (r \<noteq> 0)"
| "truthy (JStr s) = (s \<noteq> [])"
| "truthy (JArr xs) = True"
| "truthy (JObj kvs) = True"

text \<open>\<open>v[k]\<close> and \<open>Object.keys(v)\<close>. A property read on a value that is not an
  object yields \<open>undefined\<close> for the keys used here.\<close>

fun get :: "jv \<Rightarrow> string \<Rightarrow> jv" where
  "get (JObj kvs) k = (case map_of kvs k of None \<Rightarrow> JUndefined | Some v \<Rightarrow> v)"
| "get v k = JUndefined"

fun keys :: "jv \<Rightarrow> string list" where
  "keys (JObj kvs) = map fst kvs"
| "keys v = []"

text \<open>\<open>v == null\<close>\<close>

definition is_absent :: "jv \<Rightarrow> bool" where
  "is_absent v = (v = JUndefined \<or> v = JNull)"

subsection \<open>Schemas\<close>

datatype http_method = POST | PATCH

datatype ty = TString | TNumber | TMixed | TObject | TArray

text \<open>The tests a schema carries. \<open>Custom name message f\<close> is
  \<open>.test(name, message, f)\<close>.\<close>

datatype test =
    Defined
  | Required
  | Min rat
  | NoUnknown
  | Custom string string "jv \<Rightarrow> bool"

fun test_name :: "test \<Rightarrow> string" where
  "test_name Defined = ''defined''"
| "test_name Required = ''required''"
| "test_name (Min n) = ''min''"
| "test_name NoUnknown = ''noUnknown''"
| "test_name (Custom name msg f) = name"

text \<open>
  The part of a schema that its modifiers change: \<open>dflt = Some v\<close> after
  \<open>.default(v)\<close> (\<open>None\<close>: no default was ever set), the \<open>oneOf\<close> whitelist, the
  tests in the order they were added, and \<open>cond = Some isObject\<close> when the schema
  carries the pending condition
  \<open>.when('$method', (method, schema) => requiredForPost({ method, schema, isObject }))\<close>,
  the only condition the source uses.
\<close>

record spec =
  dflt :: "jv option"
  oneOf :: "jv list option"
  tests :: "test list"
  cond :: "bool option"

datatype schema =
    Leaf ty spec
  | ObjectS spec "(string \<times> schema) list"
  | ArrayS spec schema

fun spec_of :: "schema \<Rightarrow> spec" where
  "spec_of (Leaf t sp) = sp"
| "spec_of (ObjectS sp fs) = sp"
| "spec_of (ArrayS sp s) = sp"

fun map_spec :: "(spec \<Rightarrow> spec) \<Rightarrow> schema \<Rightarrow> schema" where
  "map_spec g (Leaf t sp) = Leaf t (g sp)"
| "map_spec g (ObjectS sp fs) = ObjectS (g sp) fs"
| "map_spec g (ArrayS sp s) = ArrayS (g sp) s"

fun kind_of :: "schema \<Rightarrow> ty" where
  "kind_of (Leaf t sp) = t"
| "kind_of (ObjectS sp fs) = TObject"
| "kind_of (ArrayS sp s) = TArray"

fun known_keys :: "schema \<Rightarrow> string list" where
  "known_keys (ObjectS sp fs) = map fst fs"
| "known_keys s = []"

definition empty_spec :: spec where
  "empty_spec = \<lparr>dflt = None, oneOf = None, tests = [], cond = None\<rparr>"

definition yup_string :: schema where "yup_string = Leaf TString empty_spec"
definition yup_number :: schema where "yup_number = Leaf TNumber empty_spec"
definition yup_mixed :: schema where "yup_mixed = Leaf TMixed empty_spec"

definition yup_object :: "(string \<times> schema) list \<Rightarrow> schema" where
  "yup_object fs = ObjectS empty_spec fs"

definition yup_array :: "schema \<Rightarrow> schema" where
  "yup_array s = ArrayS empty_spec s"

text \<open>Built-in tests are exclusive: adding one replaces a test of the same name.\<close>

definition add_test :: "test \<Rightarrow> schema \<Rightarrow> schema" where
  "add_test t = map_spec (\<lambda>sp. sp\<lparr>tests := filter (\<lambda>u. test_name u \<noteq> test_name t) (tests sp) @ [t]\<rparr>)"

definition defined :: "schema \<Rightarrow> schema" where
  "defined = add_test Defined"

definition required :: "schema \<Rightarrow> schema" where
  "required = add_test Required"

text \<open>\<open>.optional()\<close> is \<open>.notRequired()\<close>: it drops a \<open>required\<close> test.\<close>

definition optional :: "schema \<Rightarrow> schema" where
  "optional = map_spec (\<lambda>sp. sp\<lparr>tests := filter (\<lambda>u. test_name u \<noteq> ''required'') (tests sp)\<rparr>)"

definition default_to :: "jv \<Rightarrow> schema \<Rightarrow> schema" where
  "default_to v = map_spec (\<lambda>sp. sp\<lparr>dflt := Some v\<rparr>)"

definition yup_min :: "rat \<Rightarrow> schema \<Rightarrow> schema" where
  "yup_min n = add_test (Min n)"

definition one_of :: "jv list \<Rightarrow> schema \<Rightarrow> schema" where
  "one_of ws = map_spec (\<lambda>sp. sp\<lparr>oneOf := Some ws\<rparr>)"

definition noUnknown :: "schema \<Rightarrow> schema" where
  "noUnknown = add_test NoUnknown"

text \<open>\<open>.test(name, message, f)\<close> appends a test that is not exclusive.\<close>

definition custom_test :: "string \<Rightarrow> string \<Rightarrow> (jv \<Rightarrow> bool) \<Rightarrow> schema \<Rightarrow> schema" where
  "custom_test name msg f = map_spec (\<lambda>sp. sp\<lparr>tests := tests sp @ [Custom name msg f]\<rparr>)"

text \<open>\<open>.when('$method', (method, schema) => requiredForPost({ method, schema, isObject }))\<close>\<close>

definition when_method :: "bool \<Rightarrow> schema \<Rightarrow> schema" where
  "when_method isObject = map_spec (\<lambda>sp. sp\<lparr>cond := Some isObject\<rparr>)"

subsection \<open>The functions of the source\<close>

text \<open>\<open>requiredForPost\<close>, lines 18 to 28.\<close>

definition requiredForPost :: "http_method \<Rightarrow> schema \<Rightarrow> bool \<Rightarrow> schema" where
  "requiredForPost method s isObject =
     (if method = POST then defined s
      else if isObject then default_to JUndefined (optional s)
      else optional s)"

text \<open>\<open>bothRequiredIfOneRequired\<close>, lines 32 to 41.\<close>

definition bothRequiredIfOneRequired :: "jv \<Rightarrow> bool" where
  "bothRequiredIfOneRequired params =
     (if truthy params \<and> (truthy (get params ''discordHandle'') \<or> truthy (get params ''discordId''))
      then (let discordId = get params ''discordId'';
                discordHandle = get params ''discordHandle''
            in truthy discordId \<and> truthy discordHandle)
      else True)"

text \<open>The test function of \<open>Reward\<close>, lines 74 to 84.\<close>

definition rewardAllDefined :: "jv \<Rightarrow> bool" where
  "rewardAllDefined params =
     (if truthy params
      then (let amount = get params ''amount'';
                currency = get params ''currency'';
                scale = get params ''scale'';
                amountWithoutScale = get params ''amountWithoutScale''
            in (truthy amount \<or> amount = JNum 0)
               \<and> (truthy scale \<or> scale = JNum 0)
               \<and> (truthy amountWithoutScale \<or> amountWithoutScale = JNum 0)
               \<and> truthy currency)
      else True)"

subsection \<open>The schemas of the source\<close>

text \<open>\<open>DiscordUser\<close>, lines 43 to 51.\<close>

definition DiscordUser :: schema where
  "DiscordUser =
     custom_test ''is-optional'' ''${path}.discordId or ${path}.discordHandle is required''
       bothRequiredIfOneRequired
       (yup_object
          [(''discordHandle'', optional yup_string),
           (''discordId'', optional yup_string)])"

text \<open>\<open>RequiredDiscordUser\<close>, lines 57 to 64. An omitted \<open>isObject\<close> is falsy.\<close>

definition RequiredDiscordUser :: schema where
  "RequiredDiscordUser =
     custom_test ''is-optional'' ''Missing one of [discordId, discordHandle] in ${path}''
       bothRequiredIfOneRequired
       (yup_object
          [(''discordId'', when_method False yup_string),
           (''discordHandle'', when_method False yup_string)])"

text \<open>\<open>Reward\<close>, lines 66 to 85.\<close>

definition Reward :: schema where
  "Reward =
     custom_test ''is-optional''
       ''Missing one of [amount, currency, scale, amountWithoutScale] in ${path}.''
       rewardAllDefined
       (yup_object
          [(''amount'', when_method False (yup_min 0 yup_number)),
           (''currency'', when_method False (default_to (JStr ''BANK'') yup_string)),
           (''scale'', when_method False (default_to (JNum 0) yup_number)),
           (''amountWithoutScale'', when_method False yup_number)])"

text \<open>\<open>Status\<close>, lines 87 to 94, and \<open>StatusHistory\<close>, lines 96 to 99.\<close>

definition status_values :: "jv list" where
  "status_values =
     [JStr ''Draft'', JStr ''Open'', JStr ''In-Progress'', JStr ''In-Review'',
      JStr ''Completed'', JStr ''Deleted'']"

definition Status :: schema where
  "Status = one_of status_values yup_mixed"

definition StatusHistory :: schema where
  "StatusHistory = yup_object [(''status'', Status), (''modifiedAt'', yup_string)]"

text \<open>\<open>BountySchema\<close>, lines 101 to 126.\<close>

definition BountySchema_fields :: "(string \<times> schema) list" where
  "BountySchema_fields =
       [(''_id'', optional yup_string),
        (''title'', when_method False yup_string),
        (''description'', when_method False yup_string),
        (''criteria'', when_method False yup_string),
        (''customerId'', when_method False yup_string),
        (''status'', when_method False Status),
        (''dueAt'', when_method False yup_string),
        (''reward'', when_method True Reward),
        (''statusHistory'', optional (yup_array StatusHistory)),
        (''discordMessageId'', optional yup_string),
        (''submissionNotes'', optional yup_string),
        (''submissionUrl'', optional yup_string),
        (''createdAt'', when_method False yup_string),
        (''claimedAt'', optional yup_string),
        (''submittedAt'', optional yup_string),
        (''reviewedAt'', optional yup_string),
        (''createdBy'', when_method True RequiredDiscordUser),
        (''claimedBy'', default_to JUndefined (optional DiscordUser)),
        (''submittedBy'', default_to JUndefined (optional DiscordUser)),
        (''reviewedBy'', default_to JUndefined (optional DiscordUser))]"

definition BountySchema :: schema where
  "BountySchema = noUnknown (yup_object BountySchema_fields)"

text \<open>\<open>BountyClaimSchema\<close>, lines 128 to 133.\<close>

definition BountyClaimSchema_fields :: "(string \<times> schema) list" where
  "BountyClaimSchema_fields =
       [(''submissionNotes'', required yup_string),
        (''claimedBy'', required DiscordUser),
        (''status'', required Status),
        (''statusHistory'', required (yup_array StatusHistory))]"

definition BountyClaimSchema :: schema where
  "BountyClaimSchema = noUnknown (yup_object BountyClaimSchema_fields)"

subsection \<open>Validation\<close>

text \<open>
  The caller's part of a validation: the \<open>$method\<close> of the context, the \<open>strict\<close>
  option (no casting before the tests; off by default), and the type coercion that a
  cast applies to a value of the wrong type (\<open>"5"\<close> to \<open>5\<close>, \<open>5\<close> to \<open>"5"\<close>, anything
  else to \<open>null\<close> or \<open>NaN\<close>). The coercion is JavaScript's and is left open: every
  result below holds for each choice of it. The \<open>stripUnknown\<close> option is left unset,
  and all violations are collected (\<open>abortEarly\<close> off reports them all, on reports the
  first of them: the candidate is accepted in the same cases).
\<close>

record ctx =
  ctx_method :: http_method
  strict :: bool
  coerce :: "ty \<Rightarrow> jv \<Rightarrow> jv"

text \<open>Resolving the condition of a schema calls \<open>requiredForPost\<close> on the schema
  without its condition.\<close>

definition resolve :: "http_method \<Rightarrow> schema \<Rightarrow> schema" where
  "resolve m s =
     (case cond (spec_of s) of
        None \<Rightarrow> s
      | Some isObject \<Rightarrow> requiredForPost m (map_spec (\<lambda>sp. sp\<lparr>cond := None\<rparr>) s) isObject)"

fun typeCheck :: "ty \<Rightarrow> jv \<Rightarrow> bool" where
  "typeCheck TString v = (case v of JStr s \<Rightarrow> True | _ \<Rightarrow> False)"
| "typeCheck TNumber v = (case v of JNum r \<Rightarrow> True | _ \<Rightarrow> False)"
| "typeCheck TMixed v = True"
| "typeCheck TObject v = (case v of JObj kvs \<Rightarrow> True | _ \<Rightarrow> False)"
| "typeCheck TArray v = (case v of JArr xs \<Rightarrow> True | _ \<Rightarrow> False)"

text \<open>
  The default of a schema: the one set with \<open>.default\<close>; failing that an object
  schema with fields builds an object of its fields' defaults, and every other schema
  has none. (The builder's documentation: an object schema comes with a default
  already set, which builds out the object shape; a nested object that should stay
  absent needs \<open>.default(undefined)\<close>. Line 23 of the source applies that remedy.)
  A field's default is read with no context, so that \<open>$method\<close> is undefined there
  and \<open>requiredForPost\<close> takes the branch it takes for \<open>PATCH\<close>.
\<close>

fun getDefault :: "schema \<Rightarrow> jv" where
  "getDefault (Leaf t sp) = (case dflt sp of Some v \<Rightarrow> v | None \<Rightarrow> JUndefined)"
| "getDefault (ObjectS sp fs) =
     (case dflt sp of
        Some v \<Rightarrow> v
      | None \<Rightarrow>
          if fs = [] then JUndefined
          else JObj (map (\<lambda>(k, f). (k, case dflt (spec_of (resolve PATCH f)) of
                                           Some v \<Rightarrow> v
                                         | None \<Rightarrow> getDefault f)) fs))"
| "getDefault (ArrayS sp s) = (case dflt sp of Some v \<Rightarrow> v | None \<Rightarrow> JUndefined)"

text \<open>The transforms of a schema leave \<open>undefined\<close> and a value of the schema's type
  as they are.\<close>

definition transform :: "ctx \<Rightarrow> schema \<Rightarrow> jv \<Rightarrow> jv" where
  "transform c s v =
     (if v = JUndefined \<or> typeCheck (kind_of s) v then v else coerce c (kind_of s) v)"

text \<open>
  Casting: transform, put the default in the place of \<open>undefined\<close>, then cast the
  fields of an object (keeping those that are not \<open>undefined\<close>) and the items of an
  array. An object schema with \<open>noUnknown\<close> strips the keys it does not declare.
  (The builder's documentation of \<open>noUnknown\<close>: restricting keys to known also enables
  the \<open>stripUnknown\<close> option when not in strict mode.)
\<close>

fun is_noUnknown :: "test \<Rightarrow> bool" where
  "is_noUnknown NoUnknown = True"
| "is_noUnknown t = False"

fun cast :: "ctx \<Rightarrow> schema \<Rightarrow> jv \<Rightarrow> jv" where
  "cast c (Leaf t sp) v =
     (let s = resolve (ctx_method c) (Leaf t sp); v1 = transform c s v
      in if v1 = JUndefined then getDefault s else v1)"
| "cast c (ObjectS sp fs) v =
     (let s = resolve (ctx_method c) (ObjectS sp fs); v1 = transform c s v
      in if v1 = JUndefined then getDefault s
         else case v1 of
                JObj kvs \<Rightarrow>
                  JObj (filter (\<lambda>(k, x). x \<noteq> JUndefined)
                          (map (\<lambda>(k, f). (k, cast c f (get v1 k))) fs)
                        @ (if list_ex is_noUnknown (tests (spec_of s)) then []
                           else filter (\<lambda>(k, x). k \<notin> set (map fst fs)) kvs))
              | _ \<Rightarrow> v1)"
| "cast c (ArrayS sp s0) v =
     (let s = resolve (ctx_method c) (ArrayS sp s0); v1 = transform c s v
      in if v1 = JUndefined then getDefault s
         else case v1 of JArr xs \<Rightarrow> JArr (map (cast c s0) xs) | _ \<Rightarrow> v1)"

datatype seg = Key string | Idx nat

datatype err =
    TypeErr
  | OneOfErr
  | DefinedErr
  | RequiredErr
  | MinErr
  | NoUnknownErr
  | CustomErr string string

type_synonym violation = "seg list \<times> err"

text \<open>\<open>required\<close>: the value is neither \<open>undefined\<close> nor \<open>null\<close>, and for a string
  schema its \<open>length\<close> is not zero. For the other schemas, arrays among them, the
  test asks no more than the first part.\<close>

definition is_present :: "ty \<Rightarrow> jv \<Rightarrow> bool" where
  "is_present t v =
     (\<not> is_absent v \<and>
      (if t = TString
       then (case v of JStr s \<Rightarrow> s \<noteq> [] | JArr xs \<Rightarrow> xs \<noteq> [] | _ \<Rightarrow> False)
       else True))"

definition unknown :: "schema \<Rightarrow> jv \<Rightarrow> string list" where
  "unknown s v = filter (\<lambda>k. k \<notin> set (known_keys s)) (keys v)"

fun run_test :: "schema \<Rightarrow> jv \<Rightarrow> test \<Rightarrow> err list" where
  "run_test s v Defined = (if v \<noteq> JUndefined then [] else [DefinedErr])"
| "run_test s v Required = (if is_present (kind_of s) v then [] else [RequiredErr])"
| "run_test s v (Min n) =
     (if is_absent v \<or> (case v of JNum r \<Rightarrow> n \<le> r | _ \<Rightarrow> False) then [] else [MinErr])"
| "run_test s v NoUnknown = (if is_absent v \<or> unknown s v = [] then [] else [NoUnknownErr])"
| "run_test s v (Custom name msg f) = (if f v then [] else [CustomErr name msg])"

text \<open>
  The tests of one schema on one value: the type error and the whitelist first, both
  silent on \<open>undefined\<close>, and the other tests only when those two pass.
\<close>

definition own_errors :: "schema \<Rightarrow> seg list \<Rightarrow> jv \<Rightarrow> violation list" where
  "own_errors s p v =
     (let initial =
            (if v \<noteq> JUndefined \<and> \<not> typeCheck (kind_of s) v then [TypeErr] else [])
            @ (case oneOf (spec_of s) of
                 None \<Rightarrow> []
               | Some ws \<Rightarrow> if v = JUndefined \<or> v \<in> set ws then [] else [OneOfErr])
      in map (Pair p)
           (if initial \<noteq> [] then initial else concat (map (run_test s v) (tests (spec_of s)))))"

text \<open>The tests of a schema, then those of the fields of an object and of the items
  of an array.\<close>

fun check :: "http_method \<Rightarrow> schema \<Rightarrow> seg list \<Rightarrow> jv \<Rightarrow> violation list" where
  "check m (Leaf t sp) p v = own_errors (resolve m (Leaf t sp)) p v"
| "check m (ObjectS sp fs) p v =
     own_errors (resolve m (ObjectS sp fs)) p v
     @ (case v of
          JObj kvs \<Rightarrow> concat (map (\<lambda>(k, f). check m f (p @ [Key k]) (get v k)) fs)
        | _ \<Rightarrow> [])"
| "check m (ArrayS sp s0) p v =
     own_errors (resolve m (ArrayS sp s0)) p v
     @ (case v of
          JArr xs \<Rightarrow> concat (map (\<lambda>(i, x). check m s0 (p @ [Idx i]) x) (enumerate 0 xs))
        | _ \<Rightarrow> [])"

text \<open>\<open>schema.validate(value, { strict, context: { method } })\<close>: the value is cast
  unless \<open>strict\<close> is set, then tested; the result is the cast value or the
  violations.\<close>

definition validate :: "ctx \<Rightarrow> schema \<Rightarrow> jv \<Rightarrow> violation list + jv" where
  "validate c s v =
     (let v1 = (if strict c then v else cast c s v);
          es = check (ctx_method c) s [] v1
      in if es = [] then Inr v1 else Inl es)"

subsection \<open>Vocabulary of the properties\<close>

text \<open>The value the tests run on: the candidate itself under \<open>strict\<close>, its cast
  otherwise.\<close>

definition input_value :: "ctx \<Rightarrow> schema \<Rightarrow> jv \<Rightarrow> jv" where
  "input_value c s v = (if strict c then v else cast c s v)"

text \<open>The schemas of the four identity fields of \<open>BountySchema\<close>: \<open>createdBy\<close> is
  \<open>requiredPair\<close>, the three others are \<open>optionalPair\<close>.\<close>

definition optionalPair :: schema where
  "optionalPair = default_to JUndefined (optional DiscordUser)"

definition requiredPair :: schema where
  "requiredPair = when_method True RequiredDiscordUser"

text \<open>The violation of the pairing test at the identity field \<open>k\<close>, with the message of
  the schema that field uses.\<close>

definition pair_message :: "string \<Rightarrow> string" where
  "pair_message k =
     (if k = ''createdBy'' then ''Missing one of [discordId, discordHandle] in ${path}''
      else ''${path}.discordId or ${path}.discordHandle is required'')"

definition pair_violation :: "string \<Rightarrow> violation" where
  "pair_violation k = ([Key k], CustomErr ''is-optional'' (pair_message k))"

text \<open>The type \<open>string | undefined\<close> that \<open>ParamsType\<close> (line 31) gives the two
  fields of a pair.\<close>

definition str_or_undefined :: "jv \<Rightarrow> bool" where
  "str_or_undefined v = (case v of JUndefined \<Rightarrow> True | JStr s \<Rightarrow> True | _ \<Rightarrow> False)"

definition discord_pair :: "jv \<Rightarrow> jv \<Rightarrow> jv" where
  "discord_pair handle ident = JObj [(''discordHandle'', handle), (''discordId'', ident)]"

text \<open>The schemas that \<open>Status\<close> is used under: in \<open>StatusHistory\<close>, in \<open>BountySchema\<close>
  and in \<open>BountyClaimSchema\<close>.\<close>

definition status_schemas :: "schema set" where
  "status_schemas = {Status, when_method False Status, required Status}"

text \<open>The field list of \<open>Reward\<close> and the schema of the \<open>reward\<close> field of
  \<open>BountySchema\<close>.\<close>

definition Reward_fields :: "(string \<times> schema) list" where
  "Reward_fields =
     [(''amount'', when_method False (yup_min 0 yup_number)),
      (''currency'', when_method False (default_to (JStr ''BANK'') yup_string)),
      (''scale'', when_method False (default_to (JNum 0) yup_number)),
      (''amountWithoutScale'', when_method False yup_number)]"

definition rewardField :: schema where
  "rewardField = when_method True Reward"

text \<open>The scalar fields of \<open>BountySchema\<close> that pass through \<open>requiredForPost\<close>; a candidate
  without the key \<open>f\<close>; the violations of one field of a record; and the record of the
  specification's scenario.\<close>

definition create_required_scalars :: "string list" where
  "create_required_scalars =
     [''title'', ''description'', ''criteria'', ''customerId'', ''status'', ''dueAt'', ''createdAt'']"

definition without :: "string \<Rightarrow> (string \<times> jv) list \<Rightarrow> (string \<times> jv) list" where
  "without f kvs = filter (\<lambda>(k, x). k \<noteq> f) kvs"

definition example_bounty :: "(string \<times> jv) list" where
  "example_bounty =
     [(''title'', JStr ''Fix bug''), (''description'', JStr ''...''), (''criteria'', JStr ''...''),
      (''customerId'', JStr ''c1''), (''status'', JStr ''Draft''), (''dueAt'', JStr ''2024-01-01''),
      (''reward'', JObj [(''amount'', JNum 100), (''currency'', JStr ''BANK''), (''scale'', JNum 2),
                         (''amountWithoutScale'', JNum 1)]),
      (''createdAt'', JStr ''2024-01-01''),
      (''createdBy'', JObj [(''discordId'', JStr ''1''), (''discordHandle'', JStr ''h'')])]"

definition field_errors :: "ctx \<Rightarrow> jv \<Rightarrow> string \<times> schema \<Rightarrow> violation list" where
  "field_errors c v = (\<lambda>(k, s). check (ctx_method c) s [Key k] (input_value c s (get v k)))"


text \<open>A schema none of whose parts carries a condition; the four fields of
  \<open>BountyClaimSchema\<close>, the schema of its \<open>claimedBy\<close> field, and a claim record around
  a given claimer.\<close>

fun cond_free :: "schema \<Rightarrow> bool" where
  "cond_free (Leaf t sp) = (cond sp = None)"
| "cond_free (ObjectS sp fs) = (cond sp = None \<and> list_all (\<lambda>(k, f). cond_free f) fs)"
| "cond_free (ArrayS sp s0) = (cond sp = None \<and> cond_free s0)"



definition example_claim :: "jv \<Rightarrow> (string \<times> jv) list" where
  "example_claim claimer =
     [(''submissionNotes'', JStr ''done''), (''claimedBy'', claimer), (''status'', JStr ''In-Review''),
      (''statusHistory'', JArr [JObj [(''status'', JStr ''In-Review''), (''modifiedAt'', JStr ''2024-02-01'')]])]"

text \<open>Reward objects whose fields have their declared types or are absent, the ways a
  field can be present, the message of the completeness test, and the two rewards of
  the specification's example.\<close>

definition num_or_undefined :: "jv \<Rightarrow> bool" where
  "num_or_undefined v = (case v of JUndefined \<Rightarrow> True | JNum r \<Rightarrow> True | _ \<Rightarrow> False)"

definition reward_typed :: "jv \<Rightarrow> bool" where
  "reward_typed rw =
     (num_or_undefined (get rw ''amount'') \<and> str_or_undefined (get rw ''currency'')
      \<and> num_or_undefined (get rw ''scale'') \<and> num_or_undefined (get rw ''amountWithoutScale''))"

definition is_number :: "jv \<Rightarrow> bool" where
  "is_number v = (case v of JNum r \<Rightarrow> True | _ \<Rightarrow> False)"

definition nonneg_num :: "jv \<Rightarrow> bool" where
  "nonneg_num v = (case v of JNum r \<Rightarrow> 0 \<le> r | _ \<Rightarrow> False)"

definition nonempty_str :: "jv \<Rightarrow> bool" where
  "nonempty_str v = (case v of JStr s \<Rightarrow> s \<noteq> [] | _ \<Rightarrow> False)"

definition reward_message :: string where
  "reward_message = ''Missing one of [amount, currency, scale, amountWithoutScale] in ${path}.''"

definition zero_reward :: jv where
  "zero_reward =
     JObj [(''amount'', JNum 0), (''currency'', JStr ''BANK''), (''scale'', JNum 0),
           (''amountWithoutScale'', JNum 0)]"

definition only_currency :: jv where
  "only_currency = JObj [(''currency'', JStr ''BANK'')]"

text \<open>The base schemas that the source passes to \<open>requiredForPost\<close>, each with its
  \<open>isObject\<close> flag; a result that is a rejection; and the scenario's record without the
  reward's currency and scale, before and after the cast.\<close>

definition governed :: "(schema \<times> bool) list" where
  "governed =
     [(yup_string, False), (Status, False), (Reward, True), (RequiredDiscordUser, True),
      (yup_min 0 yup_number, False), (default_to (JStr ''BANK'') yup_string, False),
      (default_to (JNum 0) yup_number, False), (yup_number, False)]"

definition example_bounty_bare :: "(string \<times> jv) list" where
  "example_bounty_bare =
     [(''title'', JStr ''Fix bug''), (''description'', JStr ''...''), (''criteria'', JStr ''...''),
      (''customerId'', JStr ''c1''), (''status'', JStr ''Draft''), (''dueAt'', JStr ''2024-01-01''),
      (''reward'', JObj [(''amount'', JNum 100), (''amountWithoutScale'', JNum 1)]),
      (''createdAt'', JStr ''2024-01-01''),
      (''createdBy'', JObj [(''discordId'', JStr ''1''), (''discordHandle'', JStr ''h'')])]"

definition example_bounty_filled :: "(string \<times> jv) list" where
  "example_bounty_filled =
     [(''title'', JStr ''Fix bug''), (''description'', JStr ''...''), (''criteria'', JStr ''...''),
      (''customerId'', JStr ''c1''), (''status'', JStr ''Draft''), (''dueAt'', JStr ''2024-01-01''),
      (''reward'', JObj [(''amount'', JNum 100), (''currency'', JStr ''BANK''), (''scale'', JNum 0),
                         (''amountWithoutScale'', JNum 1)]),
      (''createdAt'', JStr ''2024-01-01''),
      (''createdBy'', JObj [(''discordId'', JStr ''1''), (''discordHandle'', JStr ''h'')])]"

definition fails :: "violation list + jv \<Rightarrow> bool" where
  "fails r = (case r of Inl es \<Rightarrow> True | Inr v \<Rightarrow> False)"

text \<open>A context for the examples: the coercion of a cast is never reached in them.\<close>

definition example_ctx :: "http_method \<Rightarrow> bool \<Rightarrow> ctx" where
  "example_ctx m st = \<lparr>ctx_method = m, strict = st, coerce = (\<lambda>t v. JNull)\<rparr>"

section \<open>Auxiliary lemmas\<close>

lemma kind_of_map_spec [simp]: "kind_of (map_spec g s) = kind_of s"
  by (cases s) auto

lemma spec_of_map_spec [simp]: "spec_of (map_spec g s) = g (spec_of s)"
  by (cases s) auto

lemma known_keys_map_spec [simp]: "known_keys (map_spec g s) = known_keys s"
  by (cases s) auto

lemma kind_of_resolve [simp]: "kind_of (resolve m s) = kind_of s"
  by (auto simp: resolve_def requiredForPost_def defined_def optional_def default_to_def add_test_def
      split: option.splits)

lemma known_keys_resolve [simp]: "known_keys (resolve m s) = known_keys s"
  by (auto simp: resolve_def requiredForPost_def defined_def optional_def default_to_def add_test_def
      split: option.splits)

lemma own_errors_path: "(q, e) \<in> set (own_errors s p v) \<Longrightarrow> q = p"
  by (auto simp: own_errors_def Let_def split: if_splits)

lemma check_paths: "(q, e) \<in> set (check m s p v) \<Longrightarrow> \<exists>r. q = p @ r"
proof (induction m s p v arbitrary: q e rule: check.induct)
  case (1 m t sp p v)
  then show ?case by (auto dest: own_errors_path)
next
  case (2 m sp fs p v)
  show ?case
  proof (cases "(q, e) \<in> set (own_errors (resolve m (ObjectS sp fs)) p v)")
    case True
    then show ?thesis by (auto dest: own_errors_path)
  next
    case False
    with "2.prems" obtain kvs k f where v: "v = JObj kvs" and kf: "(k, f) \<in> set fs"
      and mem: "(q, e) \<in> set (check m f (p @ [Key k]) (get v k))"
      by (auto split: jv.splits)
    from "2.IH"[OF v kf refl mem] show ?thesis by auto
  qed
next
  case (3 m sp s0 p v)
  show ?case
  proof (cases "(q, e) \<in> set (own_errors (resolve m (ArrayS sp s0)) p v)")
    case True
    then show ?thesis by (auto dest: own_errors_path)
  next
    case False
    with "3.prems" obtain xs i x where v: "v = JArr xs" and ix: "(i, x) \<in> set (enumerate 0 xs)"
      and mem: "(q, e) \<in> set (check m s0 (p @ [Idx i]) x)"
      by (auto split: jv.splits)
    from "3.IH"[OF v ix refl mem] show ?thesis by auto
  qed
qed

lemma check_object_field:
  assumes "distinct (map fst fs)"
  shows "(p @ Key k # r, e) \<in> set (check m (ObjectS sp fs) p (JObj kvs)) \<longleftrightarrow>
         (\<exists>f. map_of fs k = Some f \<and> (p @ Key k # r, e) \<in> set (check m f (p @ [Key k]) (get (JObj kvs) k)))"
proof
  assume L: "(p @ Key k # r, e) \<in> set (check m (ObjectS sp fs) p (JObj kvs))"
  have "(p @ Key k # r, e) \<notin> set (own_errors (resolve m (ObjectS sp fs)) p (JObj kvs))"
    by (auto dest: own_errors_path)
  with L obtain k' f where kf: "(k', f) \<in> set fs"
    and mem: "(p @ Key k # r, e) \<in> set (check m f (p @ [Key k']) (get (JObj kvs) k'))"
    by auto
  from check_paths[OF mem] have "k' = k" by auto
  with kf assms mem show "\<exists>f. map_of fs k = Some f \<and> (p @ Key k # r, e) \<in> set (check m f (p @ [Key k]) (get (JObj kvs) k))"
    by auto
next
  assume "\<exists>f. map_of fs k = Some f \<and> (p @ Key k # r, e) \<in> set (check m f (p @ [Key k]) (get (JObj kvs) k))"
  then obtain f where "map_of fs k = Some f" and mem: "(p @ Key k # r, e) \<in> set (check m f (p @ [Key k]) (get (JObj kvs) k))"
    by blast
  then have "(k, f) \<in> set fs" by (auto dest: map_of_SomeD)
  with mem show "(p @ Key k # r, e) \<in> set (check m (ObjectS sp fs) p (JObj kvs))"
    by force
qed

lemma cast_object:
  "cast c (ObjectS sp fs) (JObj kvs) =
     JObj (filter (\<lambda>(k, x). x \<noteq> JUndefined) (map (\<lambda>(k, f). (k, cast c f (get (JObj kvs) k))) fs)
           @ (if list_ex is_noUnknown (tests (spec_of (resolve (ctx_method c) (ObjectS sp fs)))) then []
              else filter (\<lambda>(k, x). k \<notin> set (map fst fs)) kvs))"
  by (simp add: transform_def Let_def)

lemma map_of_cast_fields:
  "distinct (map fst fs) \<Longrightarrow> map_of fs k = Some f \<Longrightarrow>
   map_of (filter (\<lambda>(k, x). x \<noteq> JUndefined) (map (\<lambda>(k, f). (k, h k f)) fs)) k =
     (if h k f = JUndefined then None else Some (h k f))"
proof (induction fs)
  case Nil
  then show ?case by simp
next
  case (Cons a fs)
  obtain k' f' where a: "a = (k', f')" by (cases a)
  show ?case
  proof (cases "k' = k")
    case True
    with Cons.prems a have f: "f' = f" and nk: "k \<notin> fst ` set fs" by auto
    have "map_of (filter (\<lambda>(k, x). x \<noteq> JUndefined) (map (\<lambda>(k, f). (k, h k f)) fs)) k = None"
      using nk by (auto simp: map_of_eq_None_iff image_iff)
    with True a f show ?thesis by simp
  next
    case False
    with Cons a show ?thesis by auto
  qed
qed

lemma map_of_unknown_None:
  "k \<in> set (map fst fs) \<Longrightarrow> map_of (filter (\<lambda>(k, x). k \<notin> set (map fst fs)) kvs) k = None"
  by (auto simp: map_of_eq_None_iff image_iff)

lemma get_cast_field:
  assumes "distinct (map fst fs)" and "map_of fs k = Some f"
  shows "get (cast c (ObjectS sp fs) (JObj kvs)) k = cast c f (get (JObj kvs) k)"
proof -
  have k: "k \<in> set (map fst fs)" using assms(2) by (force dest: map_of_SomeD)
  show ?thesis
    unfolding cast_object
    using map_of_cast_fields[OF assms, of "\<lambda>k f. cast c f (get (JObj kvs) k)"] map_of_unknown_None[OF k, of kvs]
    by (simp add: map_add_def split: option.splits)
qed

lemma keys_cast_object:
  "list_ex is_noUnknown (tests (spec_of (resolve (ctx_method c) (ObjectS sp fs)))) \<Longrightarrow>
   set (keys (cast c (ObjectS sp fs) (JObj kvs))) \<subseteq> set (map fst fs)"
  unfolding cast_object by force

lemmas builder_defs = yup_string_def yup_number_def yup_mixed_def yup_object_def yup_array_def
  empty_spec_def add_test_def defined_def required_def optional_def default_to_def yup_min_def
  one_of_def noUnknown_def custom_test_def when_method_def

lemmas schema_defs = DiscordUser_def RequiredDiscordUser_def Reward_def Status_def StatusHistory_def

lemma BountySchema_ctor:
  "BountySchema = ObjectS \<lparr>dflt = None, oneOf = None, tests = [NoUnknown], cond = None\<rparr> BountySchema_fields"
  by (simp add: BountySchema_def builder_defs)

lemma BountyClaimSchema_ctor:
  "BountyClaimSchema = ObjectS \<lparr>dflt = None, oneOf = None, tests = [NoUnknown], cond = None\<rparr> BountyClaimSchema_fields"
  by (simp add: BountyClaimSchema_def builder_defs)

lemma distinct_BountySchema_fields: "distinct (map fst BountySchema_fields)"
  by (simp add: BountySchema_fields_def)


lemma pair_field_schema:
  "map_of BountySchema_fields ''createdBy'' = Some requiredPair"
  "map_of BountySchema_fields ''claimedBy'' = Some optionalPair"
  "map_of BountySchema_fields ''submittedBy'' = Some optionalPair"
  "map_of BountySchema_fields ''reviewedBy'' = Some optionalPair"
  by (simp_all add: BountySchema_fields_def optionalPair_def requiredPair_def)

lemma brq_iff: "bothRequiredIfOneRequired (JObj kvs) \<longleftrightarrow>
   (truthy (get (JObj kvs) ''discordId'') = truthy (get (JObj kvs) ''discordHandle''))"
  by (auto simp: bothRequiredIfOneRequired_def Let_def)

lemma optionalPair_ctor:
  "optionalPair = ObjectS \<lparr>dflt = Some JUndefined, oneOf = None,
       tests = [Custom ''is-optional'' ''${path}.discordId or ${path}.discordHandle is required'' bothRequiredIfOneRequired],
       cond = None\<rparr>
     [(''discordHandle'', optional yup_string), (''discordId'', optional yup_string)]"
  by (simp add: optionalPair_def DiscordUser_def builder_defs)

lemma requiredPair_ctor:
  "requiredPair = ObjectS \<lparr>dflt = None, oneOf = None,
       tests = [Custom ''is-optional'' ''Missing one of [discordId, discordHandle] in ${path}'' bothRequiredIfOneRequired],
       cond = Some True\<rparr>
     [(''discordId'', when_method False yup_string), (''discordHandle'', when_method False yup_string)]"
  by (simp add: requiredPair_def RequiredDiscordUser_def builder_defs)

lemma check_optionalPair_custom:
  "(p, CustomErr ''is-optional'' ''${path}.discordId or ${path}.discordHandle is required'')
     \<in> set (check m optionalPair p (JObj q)) \<longleftrightarrow> \<not> bothRequiredIfOneRequired (JObj q)"
  by (auto simp: optionalPair_ctor own_errors_def resolve_def builder_defs)

lemma check_requiredPair_custom:
  "(p, CustomErr ''is-optional'' ''Missing one of [discordId, discordHandle] in ${path}'')
     \<in> set (check m requiredPair p (JObj q)) \<longleftrightarrow> \<not> bothRequiredIfOneRequired (JObj q)"
  by (auto simp: requiredPair_ctor own_errors_def resolve_def requiredForPost_def builder_defs)

lemma cast_str_field:
  "str_or_undefined v \<Longrightarrow> cast c (optional yup_string) v = v"
  "str_or_undefined v \<Longrightarrow> cast c (when_method False yup_string) v = v"
  by (auto simp: str_or_undefined_def builder_defs transform_def resolve_def requiredForPost_def Let_def
      split: jv.splits)

lemma validate_Inl_iff:
  "(\<exists>es. validate c s v = Inl es \<and> x \<in> set es) \<longleftrightarrow> x \<in> set (check (ctx_method c) s [] (input_value c s v))"
  by (auto simp: validate_def input_value_def Let_def)

lemma validate_Inr_iff:
  "validate c s v = Inr out \<longleftrightarrow> check (ctx_method c) s [] (input_value c s v) = [] \<and> out = input_value c s v"
  by (auto simp: validate_def input_value_def Let_def)

lemma input_value_object:
  "\<exists>kvs1. input_value c (ObjectS sp fs) (JObj kvs) = JObj kvs1"
  by (simp add: input_value_def cast_object del: cast.simps)

lemma get_input_value:
  assumes "distinct (map fst fs)" and "map_of fs k = Some f"
  shows "get (input_value c (ObjectS sp fs) (JObj kvs)) k = input_value c f (get (JObj kvs) k)"
  using get_cast_field[OF assms] by (simp add: input_value_def)

lemma field_violation_iff:
  assumes "distinct (map fst fs)" and "map_of fs k = Some f"
  shows "(\<exists>es. validate c (ObjectS sp fs) (JObj kvs) = Inl es \<and> (Key k # r, e) \<in> set es) \<longleftrightarrow>
         (Key k # r, e) \<in> set (check (ctx_method c) f [Key k] (input_value c f (get (JObj kvs) k)))"
proof -
  obtain kvs1 where kvs1: "input_value c (ObjectS sp fs) (JObj kvs) = JObj kvs1"
    using input_value_object by blast
  have g: "get (JObj kvs1) k = input_value c f (get (JObj kvs) k)"
    using get_input_value[OF assms, of c sp kvs] kvs1 by simp
  show ?thesis
    unfolding validate_Inl_iff kvs1
    using check_object_field[OF assms(1), of "[]" k r e "ctx_method c" sp kvs1] assms(2) g
    by simp
qed

lemma input_value_pair:
  assumes "F = optionalPair \<or> F = requiredPair"
    and "str_or_undefined (get (JObj q) ''discordId'')"
    and "str_or_undefined (get (JObj q) ''discordHandle'')"
  shows "\<exists>q1. input_value c F (JObj q) = JObj q1
           \<and> get (JObj q1) ''discordId'' = get (JObj q) ''discordId''
           \<and> get (JObj q1) ''discordHandle'' = get (JObj q) ''discordHandle''"
proof (cases "strict c")
  case True
  then show ?thesis by (simp add: input_value_def)
next
  case False
  from assms(1) show ?thesis
  proof
    assume F: "F = optionalPair"
    have "get (cast c F (JObj q)) ''discordId'' = cast c (optional yup_string) (get (JObj q) ''discordId'')"
         "get (cast c F (JObj q)) ''discordHandle'' = cast c (optional yup_string) (get (JObj q) ''discordHandle'')"
      unfolding F optionalPair_ctor by (rule get_cast_field; simp)+
    with assms(2,3) have "get (cast c F (JObj q)) ''discordId'' = get (JObj q) ''discordId''"
         "get (cast c F (JObj q)) ''discordHandle'' = get (JObj q) ''discordHandle''"
      by (simp_all add: cast_str_field del: get.simps cast.simps)
    moreover have "\<exists>q1. cast c F (JObj q) = JObj q1"
      unfolding F optionalPair_ctor cast_object by (simp del: cast.simps)
    ultimately show ?thesis using False by (auto simp: input_value_def)
  next
    assume F: "F = requiredPair"
    have "get (cast c F (JObj q)) ''discordId'' = cast c (when_method False yup_string) (get (JObj q) ''discordId'')"
         "get (cast c F (JObj q)) ''discordHandle'' = cast c (when_method False yup_string) (get (JObj q) ''discordHandle'')"
      unfolding F requiredPair_ctor by (rule get_cast_field; simp)+
    with assms(2,3) have "get (cast c F (JObj q)) ''discordId'' = get (JObj q) ''discordId''"
         "get (cast c F (JObj q)) ''discordHandle'' = get (JObj q) ''discordHandle''"
      by (simp_all add: cast_str_field del: get.simps cast.simps)
    moreover have "\<exists>q1. cast c F (JObj q) = JObj q1"
      unfolding F requiredPair_ctor cast_object by (simp del: cast.simps)
    ultimately show ?thesis using False by (auto simp: input_value_def)
  qed
qed

lemma check_array_item:
  "(p @ Idx i # r, e) \<in> set (check m (ArrayS sp s0) p (JArr xs)) \<longleftrightarrow>
     i < length xs \<and> (p @ Idx i # r, e) \<in> set (check m s0 (p @ [Idx i]) (xs ! i))"
proof
  assume L: "(p @ Idx i # r, e) \<in> set (check m (ArrayS sp s0) p (JArr xs))"
  have "(p @ Idx i # r, e) \<notin> set (own_errors (resolve m (ArrayS sp s0)) p (JArr xs))"
    by (auto dest: own_errors_path)
  with L obtain j x where jx: "(j, x) \<in> set (enumerate 0 xs)"
    and mem: "(p @ Idx i # r, e) \<in> set (check m s0 (p @ [Idx j]) x)"
    by auto
  from check_paths[OF mem] have "j = i" by auto
  with jx mem show "i < length xs \<and> (p @ Idx i # r, e) \<in> set (check m s0 (p @ [Idx i]) (xs ! i))"
    by (auto simp: in_set_enumerate_eq)
next
  assume R: "i < length xs \<and> (p @ Idx i # r, e) \<in> set (check m s0 (p @ [Idx i]) (xs ! i))"
  then have "(i, xs ! i) \<in> set (enumerate 0 xs)" by (simp add: in_set_enumerate_eq)
  with R show "(p @ Idx i # r, e) \<in> set (check m (ArrayS sp s0) p (JArr xs))"
    by force
qed

lemma cast_array: "cast c (ArrayS sp s0) (JArr xs) = JArr (map (cast c s0) xs)"
  by (simp add: transform_def Let_def)

lemma input_value_array:
  "input_value c (ArrayS sp s0) (JArr xs) = JArr (map (input_value c s0) xs)"
  by (simp add: input_value_def cast_array map_idI del: cast.simps)

lemma input_value_object_get:
  assumes "distinct (map fst fs)" and "map_of fs k = Some f"
  shows "\<exists>kvs1. input_value c (ObjectS sp fs) (JObj kvs) = JObj kvs1
            \<and> get (JObj kvs1) k = input_value c f (get (JObj kvs) k)"
  using input_value_object[of c sp fs kvs] get_input_value[OF assms, of c sp kvs] by auto

lemma input_value_status:
  "f \<in> status_schemas \<Longrightarrow> v \<noteq> JUndefined \<Longrightarrow> input_value c f v = v"
  by (cases "ctx_method c") (auto simp: status_schemas_def input_value_def Status_def builder_defs
      transform_def resolve_def requiredForPost_def Let_def)

lemma check_status:
  "f \<in> status_schemas \<Longrightarrow> v \<noteq> JUndefined \<Longrightarrow>
     (q, OneOfErr) \<in> set (check m f p v) \<longleftrightarrow> q = p \<and> v \<notin> set status_values"
  by (cases m) (auto simp: status_schemas_def Status_def builder_defs own_errors_def resolve_def
      requiredForPost_def Let_def split: if_splits)



lemma status_field:
  "S = BountySchema \<or> S = BountyClaimSchema \<Longrightarrow>
   \<exists>sp fs f. S = ObjectS sp fs \<and> distinct (map fst fs) \<and> map_of fs ''status'' = Some f \<and> f \<in> status_schemas"
  by (auto simp: BountySchema_ctor BountyClaimSchema_ctor status_schemas_def
      BountySchema_fields_def BountyClaimSchema_fields_def)

lemma statusHistory_field:
  "S = BountySchema \<or> S = BountyClaimSchema \<Longrightarrow>
   \<exists>sp fs sp'. S = ObjectS sp fs \<and> distinct (map fst fs)
      \<and> map_of fs ''statusHistory'' = Some (ArrayS sp' StatusHistory)"
  by (auto simp: BountySchema_ctor BountyClaimSchema_ctor builder_defs
      BountySchema_fields_def BountyClaimSchema_fields_def)

lemma StatusHistory_ctor:
  "StatusHistory = ObjectS empty_spec [(''status'', Status), (''modifiedAt'', yup_string)]"
  by (simp add: StatusHistory_def yup_object_def)

lemma rewardField_ctor:
  "rewardField = ObjectS \<lparr>dflt = None, oneOf = None,
       tests = [Custom ''is-optional''
                  ''Missing one of [amount, currency, scale, amountWithoutScale] in ${path}.''
                  rewardAllDefined],
       cond = Some True\<rparr> Reward_fields"
  by (simp add: rewardField_def Reward_def Reward_fields_def custom_test_def when_method_def
      yup_object_def empty_spec_def)

lemma distinct_Reward_fields: "distinct (map fst Reward_fields)"
  by (simp add: Reward_fields_def)

lemma reward_field_schema:
  "map_of BountySchema_fields ''reward'' = Some rewardField"
  by (simp add: BountySchema_fields_def rewardField_def)

lemma amount_field_schema:
  "map_of Reward_fields ''amount'' = Some (when_method False (yup_min 0 yup_number))"
  by (simp add: Reward_fields_def)

lemma input_value_amount:
  "input_value c (when_method False (yup_min 0 yup_number)) (JNum r) = JNum r"
  by (cases "ctx_method c") (simp_all add: input_value_def builder_defs transform_def resolve_def
      requiredForPost_def)

lemma check_amount_negative:
  "r < 0 \<Longrightarrow> (p, MinErr) \<in> set (check m (when_method False (yup_min 0 yup_number)) p (JNum r))"
  by (cases m) (simp_all add: builder_defs own_errors_def resolve_def requiredForPost_def is_absent_def)

lemma pair_absent_optional:
  "(p, CustomErr n msg) \<notin> set (check (ctx_method c) optionalPair p (input_value c optionalPair JUndefined))"
  by (simp add: input_value_def optionalPair_ctor own_errors_def resolve_def transform_def
      bothRequiredIfOneRequired_def)

lemma pair_absent_required:
  "(p, CustomErr n msg) \<notin> set (check (ctx_method c) requiredPair p (input_value c requiredPair JUndefined))"
  by (cases "ctx_method c")
    (auto simp: input_value_def requiredPair_ctor own_errors_def resolve_def transform_def
      requiredForPost_def builder_defs bothRequiredIfOneRequired_def)

lemma pair_present:
  assumes "F = optionalPair \<and> k \<noteq> ''createdBy'' \<or> F = requiredPair \<and> k = ''createdBy''"
    and "str_or_undefined (get (JObj q) ''discordId'')"
    and "str_or_undefined (get (JObj q) ''discordHandle'')"
  shows "(p, CustomErr ''is-optional'' (pair_message k)) \<in> set (check m F p (input_value c F (JObj q)))
         \<longleftrightarrow> truthy (get (JObj q) ''discordId'') \<noteq> truthy (get (JObj q) ''discordHandle'')"
proof -
  from assms have F: "F = optionalPair \<or> F = requiredPair" by blast
  from input_value_pair[OF F assms(2,3), of c] obtain q1 where
    q1: "input_value c F (JObj q) = JObj q1"
        "get (JObj q1) ''discordId'' = get (JObj q) ''discordId''"
        "get (JObj q1) ''discordHandle'' = get (JObj q) ''discordHandle''"
    by blast
  have "bothRequiredIfOneRequired (JObj q1) \<longleftrightarrow>
        truthy (get (JObj q) ''discordId'') = truthy (get (JObj q) ''discordHandle'')"
    unfolding brq_iff q1 ..
  with assms(1) show ?thesis
    unfolding q1(1)
    by (auto simp: pair_message_def check_optionalPair_custom check_requiredPair_custom
        simp del: get.simps check.simps)
qed

lemma DiscordUser_ctor:
  "DiscordUser = ObjectS \<lparr>dflt = None, oneOf = None,
       tests = [Custom ''is-optional'' ''${path}.discordId or ${path}.discordHandle is required'' bothRequiredIfOneRequired],
       cond = None\<rparr>
     [(''discordHandle'', optional yup_string), (''discordId'', optional yup_string)]"
  by (simp add: DiscordUser_def builder_defs)

lemma input_value_discord_pair:
  "input_value c DiscordUser (discord_pair (JStr a) (JStr b)) = discord_pair (JStr a) (JStr b)"
  by (simp add: input_value_def discord_pair_def DiscordUser_ctor transform_def resolve_def builder_defs)

lemma check_DiscordUser_pair:
  "check m DiscordUser [] (discord_pair (JStr a) (JStr b)) =
     (if (a = []) = (b = []) then []
      else [([], CustomErr ''is-optional'' ''${path}.discordId or ${path}.discordHandle is required'')])"
  by (auto simp: discord_pair_def DiscordUser_ctor own_errors_def resolve_def builder_defs
      bothRequiredIfOneRequired_def)

lemma check_top_object:
  assumes "distinct (map fst fs)"
  shows "check (ctx_method c) (ObjectS sp fs) [] (input_value c (ObjectS sp fs) (JObj kvs)) =
           own_errors (resolve (ctx_method c) (ObjectS sp fs)) [] (input_value c (ObjectS sp fs) (JObj kvs))
           @ concat (map (field_errors c (JObj kvs)) fs)"
proof -
  obtain kvs1 where kvs1: "input_value c (ObjectS sp fs) (JObj kvs) = JObj kvs1"
    using input_value_object by blast
  have "map (\<lambda>(k, f). check (ctx_method c) f ([] @ [Key k]) (get (JObj kvs1) k)) fs
        = map (field_errors c (JObj kvs)) fs"
  proof (rule map_cong[OF refl])
    fix x assume x: "x \<in> set fs"
    obtain k f where kf: "x = (k, f)" by (cases x)
    with x assms have "map_of fs k = Some f" by simp
    from get_input_value[OF assms this, of c sp kvs] kvs1
    have "get (JObj kvs1) k = input_value c f (get (JObj kvs) k)" by simp
    then show "(case x of (k, f) \<Rightarrow> check (ctx_method c) f ([] @ [Key k]) (get (JObj kvs1) k))
               = field_errors c (JObj kvs) x"
      by (simp add: kf field_errors_def del: get.simps)
  qed
  then have "concat (map (\<lambda>(k, f). check (ctx_method c) f ([] @ [Key k]) (get (JObj kvs1) k)) fs)
        = concat (map (field_errors c (JObj kvs)) fs)"
    by (rule arg_cong)
  then show ?thesis unfolding kvs1 by (simp del: get.simps)
qed

lemma concat_single:
  "distinct (map fst fs) \<Longrightarrow> map_of fs f = Some s \<Longrightarrow>
   (\<And>k s'. (k, s') \<in> set fs \<Longrightarrow> k \<noteq> f \<Longrightarrow> g (k, s') = []) \<Longrightarrow>
   concat (map g fs) = g (f, s)"
proof (induction fs)
  case Nil
  then show ?case by simp
next
  case (Cons a fs)
  obtain k' s' where a: "a = (k', s')" by (cases a)
  show ?case
  proof (cases "k' = f")
    case True
    with Cons.prems a have s: "s' = s" and nk: "f \<notin> fst ` set fs" by auto
    have "concat (map g fs) = []"
      using Cons.prems(3) nk by (force simp: a)
    with True a s show ?thesis by simp
  next
    case False
    with Cons.prems a have "g a = []" by auto
    moreover have "concat (map g fs) = g (f, s)"
      using Cons.IH Cons.prems False a by auto
    ultimately show ?thesis by simp
  qed
qed

lemma get_without: "get (JObj (without f kvs)) k = (if k = f then JUndefined else get (JObj kvs) k)"
  by (induction kvs) (auto simp: without_def)

lemma root_errors_noUnknown:
  "own_errors (resolve m (ObjectS \<lparr>dflt = None, oneOf = None, tests = [NoUnknown], cond = None\<rparr> fs)) p (JObj kvs) =
     (if filter (\<lambda>k. k \<notin> set (map fst fs)) (map fst kvs) = [] then [] else [(p, NoUnknownErr)])"
  by (simp add: own_errors_def resolve_def unknown_def is_absent_def)

lemma root_errors_without:
  assumes "S = ObjectS \<lparr>dflt = None, oneOf = None, tests = [NoUnknown], cond = None\<rparr> fs"
    and "own_errors (resolve m S) [] (input_value c S (JObj kvs)) = []"
  shows "own_errors (resolve m S) [] (input_value c S (JObj (without f kvs))) = []"
proof (cases "strict c")
  case True
  have "filter (\<lambda>k. k \<notin> set (map fst fs)) (map fst (without f kvs)) = []"
    if "filter (\<lambda>k. k \<notin> set (map fst fs)) (map fst kvs) = []"
    using that by (auto simp: without_def filter_empty_conv)
  with assms True show ?thesis
    by (simp add: input_value_def root_errors_noUnknown split: if_splits)
next
  case False
  have "set (keys (cast c S (JObj (without f kvs)))) \<subseteq> set (map fst fs)"
    unfolding assms(1) by (rule keys_cast_object) (simp add: resolve_def)
  moreover obtain kvs1 where kvs1: "cast c S (JObj (without f kvs)) = JObj kvs1"
    unfolding assms(1) cast_object by blast
  ultimately have "filter (\<lambda>k. k \<notin> set (map fst fs)) (map fst kvs1) = []"
    by (auto simp: filter_empty_conv)
  with False kvs1 show ?thesis
    unfolding input_value_def by (simp add: assms(1) root_errors_noUnknown del: cast.simps)
qed

lemma create_required_scalar_schema:
  "f \<in> set create_required_scalars \<Longrightarrow>
   \<exists>s. map_of BountySchema_fields f = Some s
        \<and> (s = when_method False yup_string \<or> s = when_method False Status)"
  unfolding create_required_scalars_def BountySchema_fields_def
  by (elim disjE | simp)+

lemma absent_create_required:
  assumes "s = when_method False yup_string \<or> s = when_method False Status"
    and "ctx_method c = POST"
  shows "check (ctx_method c) s p (input_value c s JUndefined) = [(p, DefinedErr)]"
proof -
  have "check POST (when_method False yup_string) p (input_value c (when_method False yup_string) JUndefined) = [(p, DefinedErr)]"
    using assms(2)
    by (simp add: input_value_def builder_defs transform_def resolve_def requiredForPost_def own_errors_def)
  moreover have "check POST (when_method False Status) p (input_value c (when_method False Status) JUndefined) = [(p, DefinedErr)]"
    using assms(2)
    by (simp add: input_value_def Status_def builder_defs transform_def resolve_def requiredForPost_def own_errors_def)
  ultimately show ?thesis using assms by auto
qed








lemma resolve_cond_free: "cond_free s \<Longrightarrow> resolve m s = s"
  by (cases s) (simp_all add: resolve_def)


lemma transform_method [simp]: "transform (c\<lparr>ctx_method := m\<rparr>) s v = transform c s v"
  by (simp add: transform_def)











lemma claim_absent_claimer_not_strict:
  "validate (example_ctx POST False) BountyClaimSchema
     (JObj [(''submissionNotes'', JStr ''done''), (''status'', JStr ''In-Review''),
      (''statusHistory'', JArr [JObj [(''status'', JStr ''In-Review''), (''modifiedAt'', JStr ''2024-02-01'')]])])
   = Inr (JObj (example_claim (JObj [(''discordHandle'', JUndefined), (''discordId'', JUndefined)])))"
  by code_simp

lemma check_rewardField:
  "check m rewardField p (JObj rw) =
     own_errors (resolve m rewardField) p (JObj rw)
     @ check m (when_method False (yup_min 0 yup_number)) (p @ [Key ''amount'']) (get (JObj rw) ''amount'')
     @ check m (when_method False (default_to (JStr ''BANK'') yup_string)) (p @ [Key ''currency'']) (get (JObj rw) ''currency'')
     @ check m (when_method False (default_to (JNum 0) yup_number)) (p @ [Key ''scale'']) (get (JObj rw) ''scale'')
     @ check m (when_method False yup_number) (p @ [Key ''amountWithoutScale'']) (get (JObj rw) ''amountWithoutScale'')"
  by (simp add: rewardField_ctor Reward_fields_def del: get.simps)

lemma own_errors_rewardField:
  "own_errors (resolve m rewardField) p (JObj rw) =
     (if rewardAllDefined (JObj rw) then [] else [(p, CustomErr ''is-optional'' reward_message)])"
  by (cases m) (simp_all add: rewardField_ctor own_errors_def resolve_def requiredForPost_def
      builder_defs reward_message_def)

lemma rewardAllDefined_typed:
  "reward_typed (JObj rw) \<Longrightarrow>
   rewardAllDefined (JObj rw) =
     (is_number (get (JObj rw) ''amount'') \<and> nonempty_str (get (JObj rw) ''currency'')
     \<and> is_number (get (JObj rw) ''scale'') \<and> is_number (get (JObj rw) ''amountWithoutScale''))"
proof -
  assume t: "reward_typed (JObj rw)"
  have n: "truthy v \<or> v = JNum 0 \<longleftrightarrow> is_number v" if "num_or_undefined v" for v
    using that by (cases v) (simp_all add: num_or_undefined_def is_number_def)
  have c: "truthy v \<longleftrightarrow> nonempty_str v" if "str_or_undefined v" for v
    using that by (cases v) (simp_all add: str_or_undefined_def nonempty_str_def)
  from t show ?thesis
    unfolding reward_typed_def rewardAllDefined_def Let_def
    by (auto simp add: n c simp del: get.simps)
qed

lemma check_amount_num:
  "check m (when_method False (yup_min 0 yup_number)) p (JNum r) = (if 0 \<le> r then [] else [(p, MinErr)])"
  by (cases m) (simp_all add: builder_defs own_errors_def resolve_def requiredForPost_def is_absent_def)

lemma check_number_num:
  "check m (when_method False (default_to d yup_number)) p (JNum r) = []"
  "check m (when_method False yup_number) p (JNum r) = []"
  by (cases m; simp add: builder_defs own_errors_def resolve_def requiredForPost_def)+

lemma check_currency_str:
  "check m (when_method False (default_to d yup_string)) p (JStr s) = []"
  by (cases m; simp add: builder_defs own_errors_def resolve_def requiredForPost_def)

lemma check_reward_typed:
  assumes "reward_typed (JObj rw)"
  shows "check m rewardField p (JObj rw) = [] \<longleftrightarrow>
     nonneg_num (get (JObj rw) ''amount'') \<and> nonempty_str (get (JObj rw) ''currency'')
     \<and> is_number (get (JObj rw) ''scale'') \<and> is_number (get (JObj rw) ''amountWithoutScale'')"
proof (cases "rewardAllDefined (JObj rw)")
  case False
  have "nonneg_num v \<Longrightarrow> is_number v" for v
    by (cases v) (simp_all add: nonneg_num_def is_number_def)
  with False rewardAllDefined_typed[OF assms] show ?thesis
    unfolding check_rewardField own_errors_rewardField
    by (auto simp del: get.simps check.simps)
next
  case True
  with rewardAllDefined_typed[OF assms] obtain a cur s w where
    g: "get (JObj rw) ''amount'' = JNum a" "get (JObj rw) ''currency'' = JStr cur"
       "get (JObj rw) ''scale'' = JNum s" "get (JObj rw) ''amountWithoutScale'' = JNum w"
    unfolding is_number_def nonempty_str_def
    by (cases "get (JObj rw) ''amount''"; simp del: get.simps;
        cases "get (JObj rw) ''currency''"; simp del: get.simps;
        cases "get (JObj rw) ''scale''"; simp del: get.simps;
        cases "get (JObj rw) ''amountWithoutScale''"; simp del: get.simps)
  from True rewardAllDefined_typed[OF assms] show ?thesis
    unfolding check_rewardField own_errors_rewardField g check_amount_num check_number_num
      check_currency_str
    by (simp add: nonneg_num_def is_number_def g del: get.simps check.simps)
qed

lemma cast_reward_fields:
  "num_or_undefined v \<Longrightarrow> cast c (when_method False (yup_min 0 yup_number)) v = v"
  "str_or_undefined v \<Longrightarrow>
     cast c (when_method False (default_to (JStr ''BANK'') yup_string)) v = (if v = JUndefined then JStr ''BANK'' else v)"
  "num_or_undefined v \<Longrightarrow>
     cast c (when_method False (default_to (JNum 0) yup_number)) v = (if v = JUndefined then JNum 0 else v)"
  "num_or_undefined v \<Longrightarrow> cast c (when_method False yup_number) v = v"
  by (cases "ctx_method c"; cases v;
      simp add: num_or_undefined_def str_or_undefined_def builder_defs transform_def resolve_def
        requiredForPost_def)+

lemma reward_fields_schema:
  "map_of Reward_fields ''currency'' = Some (when_method False (default_to (JStr ''BANK'') yup_string))"
  "map_of Reward_fields ''scale'' = Some (when_method False (default_to (JNum 0) yup_number))"
  "map_of Reward_fields ''amountWithoutScale'' = Some (when_method False yup_number)"
  by (simp_all add: Reward_fields_def)

lemma cast_rewardField:
  assumes "reward_typed (JObj rw)"
  shows "\<exists>rw1. cast c rewardField (JObj rw) = JObj rw1
     \<and> get (JObj rw1) ''amount'' = get (JObj rw) ''amount''
     \<and> get (JObj rw1) ''currency'' = (if get (JObj rw) ''currency'' = JUndefined then JStr ''BANK'' else get (JObj rw) ''currency'')
     \<and> get (JObj rw1) ''scale'' = (if get (JObj rw) ''scale'' = JUndefined then JNum 0 else get (JObj rw) ''scale'')
     \<and> get (JObj rw1) ''amountWithoutScale'' = get (JObj rw) ''amountWithoutScale''"
proof -
  obtain rw1 where rw1: "cast c rewardField (JObj rw) = JObj rw1"
    unfolding rewardField_ctor cast_object by blast
  note g = get_cast_field[OF distinct_Reward_fields]
  from assms have t: "num_or_undefined (get (JObj rw) ''amount'')" "str_or_undefined (get (JObj rw) ''currency'')"
      "num_or_undefined (get (JObj rw) ''scale'')" "num_or_undefined (get (JObj rw) ''amountWithoutScale'')"
    by (simp_all add: reward_typed_def del: get.simps)
  have "get (cast c rewardField (JObj rw)) ''amount'' = get (JObj rw) ''amount''"
    unfolding rewardField_ctor g[OF amount_field_schema] using cast_reward_fields(1)[OF t(1)] by (simp del: get.simps cast.simps)
  moreover have "get (cast c rewardField (JObj rw)) ''currency''
      = (if get (JObj rw) ''currency'' = JUndefined then JStr ''BANK'' else get (JObj rw) ''currency'')"
    unfolding rewardField_ctor g[OF reward_fields_schema(1)] using cast_reward_fields(2)[OF t(2)] by (simp del: get.simps cast.simps)
  moreover have "get (cast c rewardField (JObj rw)) ''scale''
      = (if get (JObj rw) ''scale'' = JUndefined then JNum 0 else get (JObj rw) ''scale'')"
    unfolding rewardField_ctor g[OF reward_fields_schema(2)] using cast_reward_fields(3)[OF t(3)] by (simp del: get.simps cast.simps)
  moreover have "get (cast c rewardField (JObj rw)) ''amountWithoutScale'' = get (JObj rw) ''amountWithoutScale''"
    unfolding rewardField_ctor g[OF reward_fields_schema(3)] using cast_reward_fields(4)[OF t(4)] by (simp del: get.simps cast.simps)
  ultimately show ?thesis using rw1 by (simp del: get.simps cast.simps)
qed

lemma validate_Inr_ex:
  "(\<exists>out. validate c s v = Inr out) \<longleftrightarrow> check (ctx_method c) s [] (input_value c s v) = []"
  by (auto simp: validate_Inr_iff)

lemma reward_not_strict:
  assumes t: "reward_typed (JObj rw)" and ns: "\<not> strict c"
  shows "(\<exists>out. validate c rewardField (JObj rw) = Inr out) \<longleftrightarrow>
     nonneg_num (get (JObj rw) ''amount'') \<and> get (JObj rw) ''currency'' \<noteq> JStr []
     \<and> is_number (get (JObj rw) ''amountWithoutScale'')"
proof -
  from cast_rewardField[OF t, of c] obtain rw1 where rw1: "cast c rewardField (JObj rw) = JObj rw1"
    and g: "get (JObj rw1) ''amount'' = get (JObj rw) ''amount''"
     "get (JObj rw1) ''currency'' = (if get (JObj rw) ''currency'' = JUndefined then JStr ''BANK'' else get (JObj rw) ''currency'')"
     "get (JObj rw1) ''scale'' = (if get (JObj rw) ''scale'' = JUndefined then JNum 0 else get (JObj rw) ''scale'')"
     "get (JObj rw1) ''amountWithoutScale'' = get (JObj rw) ''amountWithoutScale''"
    by blast
  from t have tt: "num_or_undefined (get (JObj rw) ''amount'')" "str_or_undefined (get (JObj rw) ''currency'')"
      "num_or_undefined (get (JObj rw) ''scale'')" "num_or_undefined (get (JObj rw) ''amountWithoutScale'')"
    by (simp_all add: reward_typed_def del: get.simps)
  have t1: "reward_typed (JObj rw1)"
    unfolding reward_typed_def g using tt
    by (simp add: num_or_undefined_def str_or_undefined_def del: get.simps)
  have cur: "nonempty_str (if v = JUndefined then JStr ''BANK'' else v) \<longleftrightarrow> v \<noteq> JStr []"
    if "str_or_undefined v" for v
    using that by (cases v) (simp_all add: nonempty_str_def str_or_undefined_def)
  have sc: "is_number (if v = JUndefined then JNum 0 else v)" if "num_or_undefined v" for v
    using that by (cases v) (simp_all add: is_number_def num_or_undefined_def)
  show ?thesis
    unfolding validate_Inr_ex input_value_def using ns
    by (simp add: rw1 check_reward_typed[OF t1] g cur[OF tt(2)] sc[OF tt(3)] del: get.simps cast.simps check.simps)
qed

lemma reward_strict:
  assumes t: "reward_typed (JObj rw)" and st: "strict c"
  shows "(\<exists>out. validate c rewardField (JObj rw) = Inr out) \<longleftrightarrow>
     nonneg_num (get (JObj rw) ''amount'') \<and> nonempty_str (get (JObj rw) ''currency'')
     \<and> is_number (get (JObj rw) ''scale'') \<and> is_number (get (JObj rw) ''amountWithoutScale'')"
  unfolding validate_Inr_ex input_value_def using st
  by (simp add: check_reward_typed[OF t] del: get.simps check.simps)

lemma reward_absent:
  "ctx_method c = PATCH \<Longrightarrow> validate c rewardField JUndefined = Inr JUndefined"
  "ctx_method c = POST \<Longrightarrow> \<exists>es. validate c rewardField JUndefined = Inl es"
  by (cases "strict c";
      simp add: validate_def rewardField_ctor Reward_fields_def resolve_def requiredForPost_def
        builder_defs transform_def own_errors_def rewardAllDefined_def Let_def)+

lemma zero_reward_typed: "reward_typed zero_reward"
  by (simp add: reward_typed_def zero_reward_def num_or_undefined_def str_or_undefined_def)

lemma only_currency_typed: "reward_typed only_currency"
  by (simp add: reward_typed_def only_currency_def num_or_undefined_def str_or_undefined_def)

lemma input_value_zero_reward: "input_value c rewardField zero_reward = zero_reward"
  by (simp add: input_value_def zero_reward_def rewardField_ctor cast_object Reward_fields_def
      cast_reward_fields num_or_undefined_def str_or_undefined_def del: cast.simps)

lemma validate_zero_reward: "validate c rewardField zero_reward = Inr zero_reward"
proof -
  have "\<exists>out. validate c rewardField zero_reward = Inr out"
    using reward_strict[OF zero_reward_typed[unfolded zero_reward_def], of c]
          reward_not_strict[OF zero_reward_typed[unfolded zero_reward_def], of c]
    by (cases "strict c")
       (simp_all add: zero_reward_def nonneg_num_def nonempty_str_def is_number_def)
  then show ?thesis by (auto simp: validate_Inr_iff input_value_zero_reward)
qed

lemma validate_only_currency:
  "\<exists>es. validate c rewardField only_currency = Inl es
        \<and> ([], CustomErr ''is-optional'' reward_message) \<in> set es"
proof -
  have n: "\<not> rewardAllDefined (JObj q)" if "get (JObj q) ''amount'' = JUndefined" for q
    using that by (simp add: rewardAllDefined_def Let_def del: get.simps)
  have "\<exists>q. input_value c rewardField only_currency = JObj q \<and> get (JObj q) ''amount'' = JUndefined"
  proof (cases "strict c")
    case True
    then show ?thesis by (simp add: input_value_def only_currency_def)
  next
    case False
    with cast_rewardField[OF only_currency_typed[unfolded only_currency_def], of c]
    show ?thesis by (auto simp: input_value_def only_currency_def simp del: cast.simps)
  qed
  then obtain q where q: "input_value c rewardField only_currency = JObj q"
    and a: "get (JObj q) ''amount'' = JUndefined" by blast
  show ?thesis
    unfolding validate_Inl_iff q check_rewardField own_errors_rewardField
    using n[OF a] by (simp del: get.simps check.simps)
qed

lemma policy_no_default:
  assumes "s = yup_string \<or> s = Status \<or> s = yup_min 0 yup_number \<or> s = yup_number"
  shows "dflt (spec_of s) = None"
    and "ctx_method c = POST \<Longrightarrow> fails (validate c (when_method False s) JUndefined)"
    and "ctx_method c = PATCH \<Longrightarrow> validate c (when_method False s) JUndefined = Inr JUndefined"
  using assms
  by (auto simp: fails_def validate_def Status_def builder_defs transform_def resolve_def
      requiredForPost_def own_errors_def is_absent_def)

lemma policy_default:
  assumes "s = default_to d yup_string \<or> s = default_to d yup_number"
    and "d = JStr w \<and> s = default_to d yup_string \<or> d = JNum n \<and> s = default_to d yup_number"
  shows "dflt (spec_of s) = Some d"
    and "ctx_method c = POST \<Longrightarrow> strict c \<Longrightarrow> fails (validate c (when_method False s) JUndefined)"
    and "ctx_method c = PATCH \<Longrightarrow> strict c \<Longrightarrow> validate c (when_method False s) JUndefined = Inr JUndefined"
    and "\<not> strict c \<Longrightarrow> validate c (when_method False s) JUndefined = Inr d"
  using assms
  by (cases "ctx_method c";
      auto simp: fails_def validate_def builder_defs transform_def resolve_def
      requiredForPost_def own_errors_def is_absent_def)+

lemma policy_composite:
  assumes "s = Reward \<or> s = RequiredDiscordUser"
  shows "dflt (spec_of s) = None"
    and "ctx_method c = POST \<Longrightarrow> fails (validate c (when_method True s) JUndefined)"
    and "ctx_method c = PATCH \<Longrightarrow> validate c (when_method True s) JUndefined = Inr JUndefined"
    and "cast c (optional s) JUndefined \<noteq> JUndefined"
  using assms
  by (cases "strict c";
      auto simp: fails_def validate_def schema_defs builder_defs transform_def resolve_def
      requiredForPost_def own_errors_def is_absent_def rewardAllDefined_def
      bothRequiredIfOneRequired_def Let_def)+

section \<open>The claims\<close>

text \<open>
  Claim C1, as the code has it. For each schema the source passes to
  \<open>requiredForPost\<close>: under POST an absent value is rejected, unless validation is
  not \<open>strict\<close> and the schema declares a default; under PATCH an absent value is
  accepted and stays absent (no change), with the same exception; where the exception
  applies (\<open>currency\<close> and \<open>scale\<close> of the reward) the absent value is replaced by the
  default and accepted under either method. For a composite (\<open>reward\<close>, \<open>createdBy\<close>)
  an absent value under PATCH is accepted as \<open>undefined\<close>, where the cast of the merely
  optional schema would have built an object from the defaults of its fields. The
  example after the theorem is a record without the reward's currency and scale that
  is accepted under POST, with the defaults filled in.
\<close>

theorem field_policy:
  assumes "(s, b) \<in> set governed"
  shows "(ctx_method c = POST \<and> (strict c \<or> dflt (spec_of s) = None) \<longrightarrow>
            fails (validate c (when_method b s) JUndefined))
       \<and> (ctx_method c = PATCH \<and> (b \<or> strict c \<or> dflt (spec_of s) = None) \<longrightarrow>
            validate c (when_method b s) JUndefined = Inr JUndefined)
       \<and> (\<not> strict c \<and> dflt (spec_of s) = Some d \<longrightarrow>
            validate c (when_method b s) JUndefined = Inr d)
       \<and> (b \<longrightarrow> cast c (optional s) JUndefined \<noteq> JUndefined)"
proof -
  from assms consider
      (plain) "\<not> b" "s = yup_string \<or> s = Status \<or> s = yup_min 0 yup_number \<or> s = yup_number"
    | (dfl) d' w n where "\<not> b" "s = default_to d' yup_string \<or> s = default_to d' yup_number"
        "d' = JStr w \<and> s = default_to d' yup_string \<or> d' = JNum n \<and> s = default_to d' yup_number"
    | (comp) "b" "s = Reward \<or> s = RequiredDiscordUser"
    unfolding governed_def by auto
  then show ?thesis
  proof cases
    case plain
    from policy_no_default(1)[OF plain(2)] policy_no_default(2,3)[OF plain(2), of c] plain(1)
    show ?thesis by simp
  next
    case dfl
    from policy_default(1)[OF dfl(2,3)] policy_default(2,3,4)[OF dfl(2,3), of c] dfl(1)
    show ?thesis by auto
  next
    case comp
    from policy_composite(1)[OF comp(2)] policy_composite(2,3,4)[OF comp(2), of c] comp(1)
    show ?thesis by (simp del: cast.simps)
  qed
qed

theorem field_policy_counterexample:
  "validate (example_ctx POST False) BountySchema (JObj example_bounty_bare)
     = Inr (JObj example_bounty_filled)"
  by code_simp

theorem field_policy_witness:
  "(yup_string, False) \<in> set governed
   \<and> (Reward, True) \<in> set governed
   \<and> (default_to (JStr ''BANK'') yup_string, False) \<in> set governed
   \<and> fails (validate (example_ctx POST False) (when_method False yup_string) JUndefined)
   \<and> validate (example_ctx PATCH False) (when_method False yup_string) JUndefined = Inr JUndefined
   \<and> validate (example_ctx PATCH False) (when_method True Reward) JUndefined = Inr JUndefined
   \<and> cast (example_ctx PATCH False) (optional Reward) JUndefined \<noteq> JUndefined
   \<and> validate (example_ctx POST False) (when_method False (default_to (JStr ''BANK'') yup_string)) JUndefined
        = Inr (JStr ''BANK'')"
proof -
  have g: "(yup_string, False) \<in> set governed" "(Reward, True) \<in> set governed"
     "(default_to (JStr ''BANK'') yup_string, False) \<in> set governed"
    by (simp_all add: governed_def)
  have d: "dflt (spec_of yup_string) = None"
     "dflt (spec_of (default_to (JStr ''BANK'') yup_string)) = Some (JStr ''BANK'')"
    by (simp_all add: builder_defs)
  from field_policy[OF g(1), of "example_ctx POST False"]
       field_policy[OF g(1), of "example_ctx PATCH False"]
       field_policy[OF g(2), of "example_ctx PATCH False"]
       field_policy[OF g(3), of "example_ctx POST False" "JStr ''BANK''"] g d
  show ?thesis by (simp add: example_ctx_def del: cast.simps)
qed

text \<open>
  Claim C2, as the code has it. For a reward object whose fields have their declared
  types or are absent, validation of the \<open>reward\<close> field succeeds if and only if
  \<open>amount\<close> is a number that is not negative, \<open>amountWithoutScale\<close> is a number and, under
  \<open>strict\<close>, \<open>currency\<close> is a non-empty string and \<open>scale\<close> a number; without \<open>strict\<close>
  an absent \<open>currency\<close> or \<open>scale\<close> is filled with its default first, and only the
  empty string as \<open>currency\<close> is rejected. An absent reward is accepted exactly under
  PATCH. The reward of zeros is accepted and the reward with only a currency is
  rejected with the violation of the completeness test, for each method and each
  setting of \<open>strict\<close>. The example after the theorem is a reward with all four fields
  and a negative amount, which is rejected.
\<close>

theorem reward_completeness:
  assumes "reward_typed (JObj rw)"
  shows "((\<exists>out. validate c rewardField (JObj rw) = Inr out) \<longleftrightarrow>
            nonneg_num (get (JObj rw) ''amount'') \<and> is_number (get (JObj rw) ''amountWithoutScale'')
            \<and> (if strict c
                then nonempty_str (get (JObj rw) ''currency'') \<and> is_number (get (JObj rw) ''scale'')
                else get (JObj rw) ''currency'' \<noteq> JStr []))
       \<and> (validate c rewardField JUndefined = Inr JUndefined \<longleftrightarrow> ctx_method c = PATCH)
       \<and> validate c rewardField zero_reward = Inr zero_reward
       \<and> (\<exists>es. validate c rewardField only_currency = Inl es
               \<and> ([], CustomErr ''is-optional'' reward_message) \<in> set es)"
proof -
  have 1: "(\<exists>out. validate c rewardField (JObj rw) = Inr out) \<longleftrightarrow>
            nonneg_num (get (JObj rw) ''amount'') \<and> is_number (get (JObj rw) ''amountWithoutScale'')
            \<and> (if strict c
                then nonempty_str (get (JObj rw) ''currency'') \<and> is_number (get (JObj rw) ''scale'')
                else get (JObj rw) ''currency'' \<noteq> JStr [])"
    using reward_strict[OF assms, of c] reward_not_strict[OF assms, of c]
    by (cases "strict c") (auto simp del: get.simps)
  have 2: "validate c rewardField JUndefined = Inr JUndefined \<longleftrightarrow> ctx_method c = PATCH"
    using reward_absent[of c] by (cases "ctx_method c") auto
  from 1 2 validate_zero_reward validate_only_currency show ?thesis by blast
qed

theorem reward_completeness_counterexample:
  "validate (example_ctx PATCH True) rewardField
     (JObj [(''amount'', JNum (- 1)), (''currency'', JStr ''BANK''), (''scale'', JNum 0),
            (''amountWithoutScale'', JNum 0)])
   = Inl [([Key ''amount''], MinErr)]"
  by code_simp

theorem reward_completeness_witness:
  "reward_typed (JObj [(''amount'', JNum 100), (''currency'', JStr ''BANK''), (''scale'', JNum 2),
                       (''amountWithoutScale'', JNum 1)])
   \<and> (\<exists>out. validate (example_ctx POST False) rewardField
               (JObj [(''amount'', JNum 100), (''currency'', JStr ''BANK''), (''scale'', JNum 2),
                      (''amountWithoutScale'', JNum 1)]) = Inr out)
   \<and> validate (example_ctx POST False) rewardField zero_reward = Inr zero_reward"
  using reward_completeness[of "[(''amount'', JNum 100), (''currency'', JStr ''BANK''), (''scale'', JNum 2),
                       (''amountWithoutScale'', JNum 1)]" "example_ctx POST False"]
  by (simp add: reward_typed_def num_or_undefined_def str_or_undefined_def nonneg_num_def
      is_number_def example_ctx_def)

text \<open>
  Claim C3. In \<open>BountySchema\<close>, for each identity field (\<open>createdBy\<close>, \<open>claimedBy\<close>,
  \<open>submittedBy\<close>, \<open>reviewedBy\<close>), for each method and each setting of \<open>strict\<close>: when
  the candidate gives the field an object whose \<open>discordId\<close> and \<open>discordHandle\<close> are
  strings or undefined, validation reports the pairing violation at that field if and
  only if exactly one of the two is present (truthy); when the candidate does not
  give the field, the pairing violation is not reported.
\<close>

theorem paired_identity_rule:
  assumes "k \<in> {''createdBy'', ''claimedBy'', ''submittedBy'', ''reviewedBy''}"
  shows "(get (JObj kvs) k = JObj q
            \<and> str_or_undefined (get (JObj q) ''discordId'')
            \<and> str_or_undefined (get (JObj q) ''discordHandle'') \<longrightarrow>
          ((\<exists>es. validate c BountySchema (JObj kvs) = Inl es \<and> pair_violation k \<in> set es)
            \<longleftrightarrow> truthy (get (JObj q) ''discordId'') \<noteq> truthy (get (JObj q) ''discordHandle'')))
       \<and> (get (JObj kvs) k = JUndefined \<longrightarrow>
            \<not> (\<exists>es. validate c BountySchema (JObj kvs) = Inl es \<and> pair_violation k \<in> set es))"
proof -
  from assms obtain F where F: "map_of BountySchema_fields k = Some F"
    and FF: "F = optionalPair \<and> k \<noteq> ''createdBy'' \<or> F = requiredPair \<and> k = ''createdBy''"
    using pair_field_schema by auto
  have iff: "(\<exists>es. validate c BountySchema (JObj kvs) = Inl es \<and> pair_violation k \<in> set es) \<longleftrightarrow>
        ([Key k], CustomErr ''is-optional'' (pair_message k))
          \<in> set (check (ctx_method c) F [Key k] (input_value c F (get (JObj kvs) k)))"
    unfolding BountySchema_ctor pair_violation_def
    by (rule field_violation_iff[OF distinct_BountySchema_fields F])
  show ?thesis
  proof (intro conjI impI)
    assume "get (JObj kvs) k = JObj q \<and> str_or_undefined (get (JObj q) ''discordId'')
            \<and> str_or_undefined (get (JObj q) ''discordHandle'')"
    then show "(\<exists>es. validate c BountySchema (JObj kvs) = Inl es \<and> pair_violation k \<in> set es)
            \<longleftrightarrow> truthy (get (JObj q) ''discordId'') \<noteq> truthy (get (JObj q) ''discordHandle'')"
      unfolding iff using pair_present[OF FF, of q "[Key k]" "ctx_method c" c] by simp
  next
    assume "get (JObj kvs) k = JUndefined"
    then show "\<not> (\<exists>es. validate c BountySchema (JObj kvs) = Inl es \<and> pair_violation k \<in> set es)"
      unfolding iff using FF pair_absent_optional pair_absent_required by auto
  qed
qed

theorem paired_identity_rule_witness:
  "''claimedBy'' \<in> {''createdBy'', ''claimedBy'', ''submittedBy'', ''reviewedBy''}
   \<and> (\<exists>es. validate (example_ctx PATCH True) BountySchema
               (JObj [(''claimedBy'', JObj [(''discordId'', JStr ''1'')])]) = Inl es
            \<and> pair_violation ''claimedBy'' \<in> set es)
   \<and> \<not> (\<exists>es. validate (example_ctx POST False) BountySchema (JObj []) = Inl es
            \<and> pair_violation ''createdBy'' \<in> set es)"
  using paired_identity_rule[of "''claimedBy''" "[(''claimedBy'', JObj [(''discordId'', JStr ''1'')])]"
          "[(''discordId'', JStr ''1'')]" "example_ctx PATCH True"]
        paired_identity_rule[of "''createdBy''" "[]" "[]" "example_ctx POST False"]
  by (simp add: str_or_undefined_def)







text \<open>
  Claim C6. Under POST, for each of the fields title, description, criteria,
  customerId, status, dueAt and createdAt: a candidate record in which the field is
  absent is rejected with the \<open>defined\<close> violation at exactly that field's path; and
  taking the field away from a record that validates leaves that violation as the
  only one reported.
\<close>

theorem missing_create_required_scalar:
  assumes f: "f \<in> set create_required_scalars" and m: "ctx_method c = POST"
  shows "(get (JObj kvs) f = JUndefined \<longrightarrow>
            (\<exists>es. validate c BountySchema (JObj kvs) = Inl es \<and> ([Key f], DefinedErr) \<in> set es))
       \<and> (validate c BountySchema (JObj kvs) = Inr out \<longrightarrow>
            validate c BountySchema (JObj (without f kvs)) = Inl [([Key f], DefinedErr)])"
proof (intro conjI impI)
  from create_required_scalar_schema[OF f] obtain s where
    s: "map_of BountySchema_fields f = Some s"
    and ss: "s = when_method False yup_string \<or> s = when_method False Status" by blast
  note absent = absent_create_required[OF ss m, of "[Key f]"]
  {
    assume "get (JObj kvs) f = JUndefined"
    then show "\<exists>es. validate c BountySchema (JObj kvs) = Inl es \<and> ([Key f], DefinedErr) \<in> set es"
      unfolding BountySchema_ctor field_violation_iff[OF distinct_BountySchema_fields s]
      using absent by simp
  }
  {
    assume "validate c BountySchema (JObj kvs) = Inr out"
    then have ok: "check (ctx_method c) BountySchema [] (input_value c BountySchema (JObj kvs)) = []"
      by (simp add: validate_Inr_iff)
    let ?sp = "\<lparr>dflt = None, oneOf = None, tests = [NoUnknown], cond = None\<rparr>"
    from ok have root: "own_errors (resolve (ctx_method c) BountySchema) [] (input_value c BountySchema (JObj kvs)) = []"
      and fields: "concat (map (field_errors c (JObj kvs)) BountySchema_fields) = []"
      unfolding BountySchema_ctor check_top_object[OF distinct_BountySchema_fields] by simp_all
    have root': "own_errors (resolve (ctx_method c) BountySchema) [] (input_value c BountySchema (JObj (without f kvs))) = []"
      by (rule root_errors_without[OF BountySchema_ctor root])
    have other: "field_errors c (JObj (without f kvs)) (k, s') = []"
      if "(k, s') \<in> set BountySchema_fields" and "k \<noteq> f" for k s'
    proof -
      from fields that(1) have "field_errors c (JObj kvs) (k, s') = []" by auto
      with that(2) show ?thesis by (simp add: field_errors_def get_without del: get.simps)
    qed
    have "concat (map (field_errors c (JObj (without f kvs))) BountySchema_fields)
          = field_errors c (JObj (without f kvs)) (f, s)"
      using other
      by (intro concat_single[where g = "field_errors c (JObj (without f kvs))",
            OF distinct_BountySchema_fields s]) auto
    also have "\<dots> = [([Key f], DefinedErr)]"
      using absent by (simp add: field_errors_def get_without del: get.simps)
    finally have "check (ctx_method c) BountySchema [] (input_value c BountySchema (JObj (without f kvs)))
          = [([Key f], DefinedErr)]"
      using root' unfolding BountySchema_ctor check_top_object[OF distinct_BountySchema_fields] by simp
    then show "validate c BountySchema (JObj (without f kvs)) = Inl [([Key f], DefinedErr)]"
      by (simp add: validate_def input_value_def Let_def)
  }
qed

theorem missing_create_required_scalar_witness:
  "''title'' \<in> set create_required_scalars
   \<and> ctx_method (example_ctx POST True) = POST
   \<and> validate (example_ctx POST True) BountySchema (JObj example_bounty) = Inr (JObj example_bounty)
   \<and> validate (example_ctx POST True) BountySchema (JObj (without ''title'' example_bounty))
       = Inl [([Key ''title''], DefinedErr)]"
proof -
  have ok: "validate (example_ctx POST True) BountySchema (JObj example_bounty) = Inr (JObj example_bounty)"
    by code_simp
  from missing_create_required_scalar[of "''title''" "example_ctx POST True" example_bounty "JObj example_bounty"] ok
  show ?thesis by (simp add: create_required_scalars_def example_ctx_def)
qed



text \<open>
  Claim C8. In both schemas, for each method and each setting of \<open>strict\<close>: when the
  candidate gives \<open>status\<close> a value, validation reports the \<open>oneOf\<close> violation at
  \<open>status\<close> if and only if the value is outside the six status values; the same holds
  for the \<open>status\<close> of each entry of \<open>statusHistory\<close>, at the entry's path.
\<close>

theorem status_closed_enumeration:
  assumes S: "S = BountySchema \<or> S = BountyClaimSchema"
  shows "(get (JObj kvs) ''status'' = v \<and> v \<noteq> JUndefined \<longrightarrow>
            ((\<exists>es. validate c S (JObj kvs) = Inl es \<and> ([Key ''status''], OneOfErr) \<in> set es)
              \<longleftrightarrow> v \<notin> set status_values))
       \<and> (get (JObj kvs) ''statusHistory'' = JArr xs \<and> i < length xs \<and> xs ! i = JObj entry
            \<and> get (JObj entry) ''status'' = w \<and> w \<noteq> JUndefined \<longrightarrow>
            ((\<exists>es. validate c S (JObj kvs) = Inl es
                  \<and> ([Key ''statusHistory'', Idx i, Key ''status''], OneOfErr) \<in> set es)
              \<longleftrightarrow> w \<notin> set status_values))"
proof (intro conjI impI)
  assume a: "get (JObj kvs) ''status'' = v \<and> v \<noteq> JUndefined"
  from status_field[OF S] obtain sp fs f where
    Sc: "S = ObjectS sp fs" and d: "distinct (map fst fs)" and f: "map_of fs ''status'' = Some f"
    and fs: "f \<in> status_schemas" by blast
  show "(\<exists>es. validate c S (JObj kvs) = Inl es \<and> ([Key ''status''], OneOfErr) \<in> set es)
          \<longleftrightarrow> v \<notin> set status_values"
    unfolding Sc field_violation_iff[OF d f]
    using a input_value_status[OF fs, of v c] check_status[OF fs, of v "[Key ''status'']" "ctx_method c" "[Key ''status'']"]
    by simp
next
  assume a: "get (JObj kvs) ''statusHistory'' = JArr xs \<and> i < length xs \<and> xs ! i = JObj entry
            \<and> get (JObj entry) ''status'' = w \<and> w \<noteq> JUndefined"
  from statusHistory_field[OF S] obtain sp fs sp' where
    Sc: "S = ObjectS sp fs" and d: "distinct (map fst fs)"
    and f: "map_of fs ''statusHistory'' = Some (ArrayS sp' StatusHistory)" by blast
  have st: "Status \<in> status_schemas" by (simp add: status_schemas_def)
  have "distinct (map fst [(''status'', Status), (''modifiedAt'', yup_string)])"
       "map_of [(''status'', Status), (''modifiedAt'', yup_string)] ''status'' = Some Status"
    by simp_all
  from input_value_object_get[OF this, of c empty_spec entry] obtain e1 where
    e1: "input_value c StatusHistory (JObj entry) = JObj e1"
        "get (JObj e1) ''status'' = input_value c Status (get (JObj entry) ''status'')"
    unfolding StatusHistory_ctor by blast
  have g: "get (JObj e1) ''status'' = w"
    using e1(2) a input_value_status[OF st, of w c] by simp
  have item: "([Key ''statusHistory''] @ Idx i # [Key ''status''], OneOfErr)
                \<in> set (check (ctx_method c) StatusHistory ([Key ''statusHistory''] @ [Idx i]) (JObj e1))
              \<longleftrightarrow> w \<notin> set status_values"
    unfolding StatusHistory_ctor
    using check_object_field[of "[(''status'', Status), (''modifiedAt'', yup_string)]"
            "[Key ''statusHistory'', Idx i]" "''status''" "[]" OneOfErr "ctx_method c" empty_spec e1]
          check_status[OF st, of w "[Key ''statusHistory'', Idx i, Key ''status'']" "ctx_method c"
            "[Key ''statusHistory'', Idx i, Key ''status'']"] a g
    by (simp del: check.simps get.simps)
  show "(\<exists>es. validate c S (JObj kvs) = Inl es
            \<and> ([Key ''statusHistory'', Idx i, Key ''status''], OneOfErr) \<in> set es)
          \<longleftrightarrow> w \<notin> set status_values"
    unfolding Sc field_violation_iff[OF d f]
    using a item check_array_item[of "[Key ''statusHistory'']" i "[Key ''status'']" OneOfErr
            "ctx_method c" sp' StatusHistory "map (input_value c StatusHistory) xs"] e1(1)
    by (simp add: input_value_array del: check.simps get.simps)
qed

theorem status_closed_enumeration_witness:
  "(\<exists>es. validate (example_ctx PATCH True) BountySchema
            (JObj [(''status'', JStr ''Archived''),
                   (''statusHistory'', JArr [JObj [(''status'', JStr ''Open'')], JObj [(''status'', JStr ''Lost'')]])]) = Inl es
         \<and> ([Key ''status''], OneOfErr) \<in> set es)
   \<and> (\<exists>es. validate (example_ctx PATCH True) BountySchema
            (JObj [(''status'', JStr ''Archived''),
                   (''statusHistory'', JArr [JObj [(''status'', JStr ''Open'')], JObj [(''status'', JStr ''Lost'')]])]) = Inl es
         \<and> ([Key ''statusHistory'', Idx 1, Key ''status''], OneOfErr) \<in> set es)"
  using status_closed_enumeration[of BountySchema
          "[(''status'', JStr ''Archived''),
            (''statusHistory'', JArr [JObj [(''status'', JStr ''Open'')], JObj [(''status'', JStr ''Lost'')]])]"
          "JStr ''Archived''" "example_ctx PATCH True"
          "[JObj [(''status'', JStr ''Open'')], JObj [(''status'', JStr ''Lost'')]]" 1
          "[(''status'', JStr ''Lost'')]" "JStr ''Lost''"]
  by (simp add: status_values_def)

text \<open>
  Claim C9. For each method and each setting of \<open>strict\<close>, a candidate whose reward
  holds a negative number as \<open>amount\<close> is rejected with the \<open>min\<close> violation at
  \<open>reward.amount\<close>, whatever the other reward fields hold.
\<close>

theorem reward_amount_lower_bound:
  assumes "get (JObj kvs) ''reward'' = JObj rw" and "get (JObj rw) ''amount'' = JNum r" and "r < 0"
  shows "\<exists>es. validate c BountySchema (JObj kvs) = Inl es
              \<and> ([Key ''reward'', Key ''amount''], MinErr) \<in> set es"
proof -
  from input_value_object_get[OF distinct_Reward_fields amount_field_schema, of c _ rw]
  obtain rw1 where rw1: "input_value c rewardField (JObj rw) = JObj rw1"
      "get (JObj rw1) ''amount'' = input_value c (when_method False (yup_min 0 yup_number)) (get (JObj rw) ''amount'')"
    unfolding rewardField_ctor by blast
  have g: "get (JObj rw1) ''amount'' = JNum r"
    using rw1(2) assms(2) input_value_amount by simp
  have "([Key ''reward''] @ Key ''amount'' # [], MinErr)
          \<in> set (check (ctx_method c) rewardField [Key ''reward''] (JObj rw1))"
    unfolding rewardField_ctor check_object_field[OF distinct_Reward_fields]
    using amount_field_schema g check_amount_negative[OF assms(3)]
    by (simp del: check.simps get.simps)
  then show ?thesis
    unfolding BountySchema_ctor
      field_violation_iff[OF distinct_BountySchema_fields reward_field_schema]
    using assms(1) rw1(1) by simp
qed

theorem reward_amount_lower_bound_witness:
  "\<exists>es. validate (example_ctx POST False) BountySchema
           (JObj [(''reward'', JObj [(''amount'', JNum (- 1)), (''currency'', JStr ''BANK''),
                                     (''scale'', JNum 0), (''amountWithoutScale'', JNum (- 1))])]) = Inl es
        \<and> ([Key ''reward'', Key ''amount''], MinErr) \<in> set es"
  using reward_amount_lower_bound[of
      "[(''reward'', JObj [(''amount'', JNum (- 1)), (''currency'', JStr ''BANK''),
                           (''scale'', JNum 0), (''amountWithoutScale'', JNum (- 1))])]"
      "[(''amount'', JNum (- 1)), (''currency'', JStr ''BANK''),
        (''scale'', JNum 0), (''amountWithoutScale'', JNum (- 1))]" "- 1" "example_ctx POST False"]
  by simp

text \<open>
  Claim C10. Presence in the pairing rule is truthiness: \<open>bothRequiredIfOneRequired\<close>
  rejects a pair with one field a non-empty string and the other the empty string,
  and \<open>DiscordUser\<close> reports exactly the pairing violation for it; a pair with both
  fields the empty string passes the test, and \<open>DiscordUser\<close> accepts it.
\<close>

theorem pairing_presence_is_truthiness:
  assumes "s \<noteq> []"
  shows "\<not> bothRequiredIfOneRequired (discord_pair (JStr s) (JStr []))
       \<and> \<not> bothRequiredIfOneRequired (discord_pair (JStr []) (JStr s))
       \<and> bothRequiredIfOneRequired (discord_pair (JStr []) (JStr []))
       \<and> validate c DiscordUser (discord_pair (JStr s) (JStr [])) =
           Inl [([], CustomErr ''is-optional'' ''${path}.discordId or ${path}.discordHandle is required'')]
       \<and> validate c DiscordUser (discord_pair (JStr []) (JStr s)) =
           Inl [([], CustomErr ''is-optional'' ''${path}.discordId or ${path}.discordHandle is required'')]
       \<and> validate c DiscordUser (discord_pair (JStr []) (JStr [])) = Inr (discord_pair (JStr []) (JStr []))"
proof -
  have v: "\<And>a b. validate c DiscordUser (discord_pair (JStr a) (JStr b)) =
        (if (a = []) = (b = []) then Inr (discord_pair (JStr a) (JStr b))
         else Inl [([], CustomErr ''is-optional'' ''${path}.discordId or ${path}.discordHandle is required'')])"
    using input_value_discord_pair[of c] check_DiscordUser_pair[of "ctx_method c"]
    by (simp add: validate_def input_value_def)
  show ?thesis using assms
    by (simp add: v) (simp add: bothRequiredIfOneRequired_def discord_pair_def)
qed

theorem pairing_presence_is_truthiness_witness:
  "''h'' \<noteq> [] \<and>
   \<not> bothRequiredIfOneRequired (discord_pair (JStr ''h'') (JStr []))
   \<and> validate (example_ctx PATCH True) DiscordUser
        (discord_pair (JStr ''h'') (JStr [])) =
       Inl [([], CustomErr ''is-optional'' ''${path}.discordId or ${path}.discordHandle is required'')]"
  using pairing_presence_is_truthiness[of "''h''" "example_ctx PATCH True"]
  by simp

end
